theory Spec2Isabelle
  imports Main "HOL-Library.Sublist"
begin

section \<open>Data model\<close>

text \<open>
  The conversation store of \<^verbatim>\<open>src/stores/ConversationStore.ts\<close> and the event hook
  \<^verbatim>\<open>useCodexEvents\<close> are embedded as pure functions on records. The type declarations
  of \<^verbatim>\<open>@/types/chat\<close> and \<^verbatim>\<open>@/types/codex\<close> are read off the fields the code uses:
  an optional field of the source is an \<open>option\<close> here (\<open>None\<close> is \<^verbatim>\<open>undefined\<close>), the
  configuration type \<^verbatim>\<open>CodexConfig\<close> is the type parameter \<open>'cfg\<close> and \<^verbatim>\<open>DEFAULT_CONFIG\<close>
  is a parameter of the functions that mention it. A \<^verbatim>\<open>ChatMode\<close> is the string it is at
  run time. A clock reading (\<^verbatim>\<open>Date.now()\<close>) and a random suffix
  (\<^verbatim>\<open>Math.random().toString(36)...\<close>) are arguments of the call that reads them; one
  reading stands for all reads made during that call. A string is the list of its UTF-16
  code units, each of them below 256 (a one-byte character: ASCII and Latin-1), so that
  \<open>length\<close> and \<open>take\<close> count as \<^verbatim>\<open>.length\<close> and \<^verbatim>\<open>.substring\<close> do; text with other
  characters is outside the model. The two \<^verbatim>\<open>console.log\<close> calls of the store are left
  out; the console output of the hook is part of its model.
\<close>

datatype Role = User | Assistant | System

record ChatMessage =
  m_id :: string
  role :: Role
  content :: string
  timestamp :: int
  isStreaming :: "bool option"
  reasoning :: "string option"
  isReasoningStreaming :: "bool option"
  toolOutput :: "string option"
  isToolStreaming :: "bool option"

record Conversation =
  c_id :: string
  title :: string
  messages :: "ChatMessage list"
  mode :: string
  createdAt :: int
  updatedAt :: int
  isFavorite :: bool
  isLoading :: "bool option"

record 'cfg ConversationStore =
  config :: 'cfg
  conversations :: "Conversation list"
  conversationsSnapshot :: "Conversation list option"
  currentConversationId :: "string option"
  sessionDisconnected :: bool
  pendingUserInput :: "string option"
  pendingNewConversation :: bool
  streamingActive :: bool

text \<open>The options argument \<^verbatim>\<open>opts?: { isStreaming?: boolean }\<close> of the update actions.\<close>

record UpdateOpts =
  opt_isStreaming :: "bool option"

section \<open>JavaScript helpers\<close>

text \<open>\<^verbatim>\<open>a || b\<close> on an optional string: the empty string and \<^verbatim>\<open>undefined\<close> are falsy.\<close>

definition str_or :: "string option \<Rightarrow> string \<Rightarrow> string" where
  "str_or a b = (case a of None \<Rightarrow> b | Some s \<Rightarrow> if s = [] then b else s)"

text \<open>\<^verbatim>\<open>opts && typeof opts.isStreaming !== 'undefined'\<close> and \<^verbatim>\<open>opts && opts.isStreaming\<close>.\<close>

definition opts_defined :: "UpdateOpts option \<Rightarrow> bool option" where
  "opts_defined opts = (case opts of None \<Rightarrow> None | Some r \<Rightarrow> opt_isStreaming r)"

definition opts_streaming :: "UpdateOpts option \<Rightarrow> bool" where
  "opts_streaming opts = (opts_defined opts = Some True)"

text \<open>Decimal rendering of a number inside a template literal.\<close>

definition digit_char :: "nat \<Rightarrow> char" where
  "digit_char d = ''0123456789'' ! d"

function dec_nat :: "nat \<Rightarrow> string" where
  "dec_nat n = (if n < 10 then [digit_char n] else dec_nat (n div 10) @ [digit_char (n mod 10)])"
  by pat_completeness auto
termination
  by (relation "measure (\<lambda>n. n)") auto

declare dec_nat.simps [simp del]

definition dec_int :: "int \<Rightarrow> string" where
  "dec_int i = (if i < 0 then CHR ''-'' # dec_nat (nat (- i)) else dec_nat (nat i))"

text \<open>
  \<^verbatim>\<open>String.prototype.trim\<close>: the white space and line terminators among the code units
  below 256 are U+0009 to U+000D, U+0020 and U+00A0.
\<close>

definition is_space :: "char \<Rightarrow> bool" where
  "is_space c = (of_char c \<in> {9, 10, 11, 12, 13, 32, 160 :: nat})"

definition trim :: "string \<Rightarrow> string" where
  "trim s = rev (dropWhile is_space (rev (dropWhile is_space s)))"

text \<open>\<^verbatim>\<open>arr[arr.length - 1]\<close>: \<^verbatim>\<open>undefined\<close> on the empty array.\<close>

definition last_opt :: "'a list \<Rightarrow> 'a option" where
  "last_opt xs = (if xs = [] then None else Some (last xs))"

section \<open>The store actions\<close>

definition generateTitle :: "ChatMessage list \<Rightarrow> string" where
  "generateTitle msgs =
     (case find (\<lambda>msg. role msg = User) msgs of
        Some firstUserMessage \<Rightarrow>
          (let c = trim (content firstUserMessage)
           in if length c > 50 then take 50 c @ ''...'' else c)
      | None \<Rightarrow> ''New Conversation'')"

definition initial_store :: "'cfg \<Rightarrow> 'cfg ConversationStore" where
  "initial_store default_config =
     \<lparr> config = default_config, conversations = [], conversationsSnapshot = None,
       currentConversationId = None, sessionDisconnected = False, pendingUserInput = None,
       pendingNewConversation = False, streamingActive = False \<rparr>"

definition setConfig :: "'cfg \<Rightarrow> 'cfg ConversationStore \<Rightarrow> 'cfg ConversationStore" where
  "setConfig cfg st = st\<lparr>config := cfg\<rparr>"

definition generated_id :: "int \<Rightarrow> string \<Rightarrow> string" where
  "generated_id now rnd = ''codex-event-'' @ dec_int now @ ''-'' @ rnd"

text \<open>
  \<^verbatim>\<open>createConversation(title?, mode = "agent", sessionId?)\<close> returns the id and the new
  state. \<^verbatim>\<open>sessionId || `codex-event-...`\<close> takes the generated id also for the empty
  string.
\<close>

definition createConversation ::
  "string option \<Rightarrow> string option \<Rightarrow> string option \<Rightarrow> int \<Rightarrow> string \<Rightarrow>
   'cfg ConversationStore \<Rightarrow> string \<times> 'cfg ConversationStore" where
  "createConversation ttl md sessionId now rnd st =
     (let ident = str_or sessionId (generated_id now rnd) in
      case find (\<lambda>conv. c_id conv = ident) (conversations st) of
        Some existingConversation \<Rightarrow> (ident, st\<lparr>currentConversationId := Some ident\<rparr>)
      | None \<Rightarrow>
          (let newConversation =
                 \<lparr> c_id = ident, title = str_or ttl ''New Conversation'', messages = [],
                   mode = (case md of None \<Rightarrow> ''agent'' | Some m \<Rightarrow> m),
                   createdAt = now, updatedAt = now, isFavorite = False, isLoading = None \<rparr>
           in (ident, st\<lparr>conversations := newConversation # conversations st,
                         currentConversationId := Some ident,
                         pendingNewConversation := True\<rparr>)))"

definition createConversationWithLatestSession ::
  "string option \<Rightarrow> string option \<Rightarrow> int \<Rightarrow> string \<Rightarrow>
   'cfg ConversationStore \<Rightarrow> string \<times> 'cfg ConversationStore" where
  "createConversationWithLatestSession ttl md now rnd st =
     createConversation ttl (Some (case md of None \<Rightarrow> ''agent'' | Some m \<Rightarrow> m)) None now rnd st"

definition selectHistoryConversation ::
  "Conversation \<Rightarrow> 'cfg ConversationStore \<Rightarrow> 'cfg ConversationStore" where
  "selectHistoryConversation conversation st =
     st\<lparr>currentConversationId := Some (c_id conversation)\<rparr>"

definition deleteConversation :: "string \<Rightarrow> 'cfg ConversationStore \<Rightarrow> 'cfg ConversationStore" where
  "deleteConversation ident st =
     (let updatedConversations = filter (\<lambda>conv. c_id conv \<noteq> ident) (conversations st);
          newCurrentId =
            (if currentConversationId st = Some ident
             then (if length updatedConversations > 0
                   then Some (c_id (hd updatedConversations)) else None)
             else currentConversationId st)
      in st\<lparr>conversations := updatedConversations, currentConversationId := newCurrentId\<rparr>)"

definition setCurrentConversation :: "string \<Rightarrow> 'cfg ConversationStore \<Rightarrow> 'cfg ConversationStore" where
  "setCurrentConversation ident st = st\<lparr>currentConversationId := Some ident\<rparr>"

definition updateConversationTitle ::
  "string \<Rightarrow> string \<Rightarrow> int \<Rightarrow> 'cfg ConversationStore \<Rightarrow> 'cfg ConversationStore" where
  "updateConversationTitle ident ttl now st =
     st\<lparr>conversations :=
          map (\<lambda>conv. if c_id conv = ident then conv\<lparr>title := ttl, updatedAt := now\<rparr> else conv)
              (conversations st)\<rparr>"

definition updateConversationMode ::
  "string \<Rightarrow> string \<Rightarrow> int \<Rightarrow> 'cfg ConversationStore \<Rightarrow> 'cfg ConversationStore" where
  "updateConversationMode ident md now st =
     st\<lparr>conversations :=
          map (\<lambda>conv. if c_id conv = ident then conv\<lparr>mode := md, updatedAt := now\<rparr> else conv)
              (conversations st)\<rparr>"

text \<open>\<^verbatim>\<open>arr.slice()\<close>: a new array with the same elements; as a value, the same list.\<close>

definition slice :: "'a list \<Rightarrow> 'a list" where
  "slice xs = take (length xs) xs"

definition snapshotConversations :: "'cfg ConversationStore \<Rightarrow> 'cfg ConversationStore" where
  "snapshotConversations st =
     (let snapshot = map (\<lambda>conv. conv\<lparr>messages := slice (messages conv)\<rparr>) (conversations st)
      in st\<lparr>conversationsSnapshot := Some snapshot\<rparr>)"

definition toggleFavorite :: "string \<Rightarrow> int \<Rightarrow> 'cfg ConversationStore \<Rightarrow> 'cfg ConversationStore" where
  "toggleFavorite ident now st =
     st\<lparr>conversations :=
          map (\<lambda>conv. if c_id conv = ident
                      then conv\<lparr>isFavorite := \<not> isFavorite conv, updatedAt := now\<rparr> else conv)
              (conversations st)\<rparr>"

definition setStreamingActive :: "bool \<Rightarrow> 'cfg ConversationStore \<Rightarrow> 'cfg ConversationStore" where
  "setStreamingActive active st = st\<lparr>streamingActive := active\<rparr>"

definition setSessionDisconnected :: "bool \<Rightarrow> 'cfg ConversationStore \<Rightarrow> 'cfg ConversationStore" where
  "setSessionDisconnected disconnected st = st\<lparr>sessionDisconnected := disconnected\<rparr>"

definition setPendingUserInput ::
  "string option \<Rightarrow> 'cfg ConversationStore \<Rightarrow> 'cfg ConversationStore" where
  "setPendingUserInput input st = st\<lparr>pendingUserInput := input\<rparr>"

definition setPendingNewConversation ::
  "bool \<Rightarrow> 'cfg ConversationStore \<Rightarrow> 'cfg ConversationStore" where
  "setPendingNewConversation pending st = st\<lparr>pendingNewConversation := pending\<rparr>"

definition setSessionLoading ::
  "string \<Rightarrow> bool \<Rightarrow> 'cfg ConversationStore \<Rightarrow> 'cfg ConversationStore" where
  "setSessionLoading sessionId loading st =
     st\<lparr>conversations :=
          map (\<lambda>conv. if c_id conv = sessionId then conv\<lparr>isLoading := Some loading\<rparr> else conv)
              (conversations st)\<rparr>"

text \<open>
  \<^verbatim>\<open>addDisconnectionWarning(conversationId)\<close>. The literal that is the content of the
  warning message (line 228) begins with characters of which one, U+0161, is no one-byte
  character; the text is therefore the argument \<open>warning\<close>.
\<close>

definition addDisconnectionWarning ::
  "string \<Rightarrow> string \<Rightarrow> int \<Rightarrow> 'cfg ConversationStore \<Rightarrow> 'cfg ConversationStore" where
  "addDisconnectionWarning conversationId warning now st =
     (let warningMessage =
            \<lparr> m_id = conversationId @ ''-disconnection-warning-'' @ dec_int now,
              role = System, content = warning, timestamp = now,
              isStreaming = None, reasoning = None, isReasoningStreaming = None,
              toolOutput = None, isToolStreaming = None \<rparr>
      in st\<lparr>conversations :=
             map (\<lambda>conv. if c_id conv = conversationId
                         then conv\<lparr>messages := messages conv @ [warningMessage], updatedAt := now\<rparr>
                         else conv)
                 (conversations st)\<rparr>)"

definition addMessage ::
  "string \<Rightarrow> ChatMessage \<Rightarrow> int \<Rightarrow> 'cfg ConversationStore \<Rightarrow> 'cfg ConversationStore" where
  "addMessage conversationId message now st =
     (let updatedConversations =
            map (\<lambda>conv.
                   if c_id conv = conversationId
                   then (let updatedMessages = messages conv @ [message];
                             ttl = (if title conv = ''New Conversation'' \<and> length updatedMessages = 1
                                    then generateTitle updatedMessages else title conv)
                         in conv\<lparr>messages := updatedMessages, title := ttl, updatedAt := now\<rparr>)
                   else conv)
                (conversations st)
      in st\<lparr>conversations := updatedConversations\<rparr>)"

text \<open>
  The three \<^verbatim>\<open>updateLastMessage*\<close> actions copy the message array, replace its last element
  by a patched copy of the last message, and touch \<^verbatim>\<open>updatedAt\<close> unless
  \<^verbatim>\<open>opts.isStreaming\<close> is true. They differ in the patch only.
\<close>

definition update_last ::
  "(ChatMessage \<Rightarrow> ChatMessage) \<Rightarrow> string \<Rightarrow> UpdateOpts option \<Rightarrow> int \<Rightarrow>
   Conversation \<Rightarrow> Conversation" where
  "update_last patch conversationId opts now conv =
     (if c_id conv = conversationId \<and> length (messages conv) > 0
      then (let updatedMessages = messages conv;
                lastMessage = updatedMessages ! (length updatedMessages - 1);
                updatedMessages = updatedMessages[length updatedMessages - 1 := patch lastMessage]
            in if opts_streaming opts
               then conv\<lparr>messages := updatedMessages\<rparr>
               else conv\<lparr>messages := updatedMessages, updatedAt := now\<rparr>)
      else conv)"

definition updateLastMessage ::
  "string \<Rightarrow> string \<Rightarrow> UpdateOpts option \<Rightarrow> int \<Rightarrow>
   'cfg ConversationStore \<Rightarrow> 'cfg ConversationStore" where
  "updateLastMessage conversationId cont opts now st =
     st\<lparr>conversations :=
          map (update_last
                 (\<lambda>lastMessage.
                    (case opts_defined opts of
                       Some b \<Rightarrow> lastMessage\<lparr>content := cont, isStreaming := Some b\<rparr>
                     | None \<Rightarrow> lastMessage\<lparr>content := cont\<rparr>))
                 conversationId opts now)
              (conversations st)\<rparr>"

definition updateLastMessageReasoning ::
  "string \<Rightarrow> string \<Rightarrow> UpdateOpts option \<Rightarrow> int \<Rightarrow>
   'cfg ConversationStore \<Rightarrow> 'cfg ConversationStore" where
  "updateLastMessageReasoning conversationId reas opts now st =
     st\<lparr>conversations :=
          map (update_last
                 (\<lambda>lastMessage.
                    (case opts_defined opts of
                       Some b \<Rightarrow> lastMessage\<lparr>reasoning := Some reas, isReasoningStreaming := Some b\<rparr>
                     | None \<Rightarrow> lastMessage\<lparr>reasoning := Some reas\<rparr>))
                 conversationId opts now)
              (conversations st)\<rparr>"

definition updateLastMessageToolOutput ::
  "string \<Rightarrow> string \<Rightarrow> UpdateOpts option \<Rightarrow> int \<Rightarrow>
   'cfg ConversationStore \<Rightarrow> 'cfg ConversationStore" where
  "updateLastMessageToolOutput conversationId output opts now st =
     st\<lparr>conversations :=
          map (update_last
                 (\<lambda>lastMessage.
                    (case opts_defined opts of
                       Some b \<Rightarrow> lastMessage\<lparr>toolOutput := Some output, isToolStreaming := Some b\<rparr>
                     | None \<Rightarrow> lastMessage\<lparr>toolOutput := Some output\<rparr>))
                 conversationId opts now)
              (conversations st)\<rparr>"

definition getCurrentConversation :: "'cfg ConversationStore \<Rightarrow> Conversation option" where
  "getCurrentConversation st =
     (case currentConversationId st of
        None \<Rightarrow> None
      | Some cur \<Rightarrow> find (\<lambda>conv. c_id conv = cur) (conversations st))"

definition getCurrentMessages :: "'cfg ConversationStore \<Rightarrow> ChatMessage list" where
  "getCurrentMessages st =
     (case getCurrentConversation st of None \<Rightarrow> [] | Some current \<Rightarrow> messages current)"

section \<open>The persisted subset\<close>

text \<open>
  What \<^verbatim>\<open>partialize\<close> hands to the persistence middleware, and what \<^verbatim>\<open>migrate\<close>
  receives back from it: an object whose fields may be absent. A \<^verbatim>\<open>CodexConfig\<close> is an
  object, hence truthy, so \<^verbatim>\<open>persistedState.config || DEFAULT_CONFIG\<close> chooses by
  presence.
\<close>

record 'cfg PersistedState =
  p_config :: "'cfg option"
  p_conversations :: "Conversation list option"
  p_currentConversationId :: "string option"

definition partialize :: "'cfg ConversationStore \<Rightarrow> 'cfg PersistedState" where
  "partialize st =
     (if streamingActive st
      then \<lparr> p_config = Some (config st), p_conversations = None,
             p_currentConversationId = currentConversationId st \<rparr>
      else \<lparr> p_config = Some (config st),
             p_conversations =
               Some (case conversationsSnapshot st of
                       Some snapshot \<Rightarrow> snapshot | None \<Rightarrow> conversations st),
             p_currentConversationId = currentConversationId st \<rparr>)"

definition migrate ::
  "'cfg \<Rightarrow> ('cfg, 'z) PersistedState_scheme \<Rightarrow> int \<Rightarrow> ('cfg, 'z) PersistedState_scheme" where
  "migrate default_config persistedState version =
     (if version < 4
      then persistedState\<lparr>p_config :=
             Some (case p_config persistedState of Some c \<Rightarrow> c | None \<Rightarrow> default_config)\<rparr>
      else persistedState)"

subsection \<open>The storage wrapper\<close>

text \<open>
  \<^verbatim>\<open>window.localStorage\<close> is the external key-value store: its items, and the log of
  the \<^verbatim>\<open>setItem\<close> calls it received. The wrapper keeps the \<^verbatim>\<open>cache\<close> object beside it.

  The cache is a plain object used as a dictionary; the map holds its own properties,
  which are strings. Where the object has no own property, \<^verbatim>\<open>cache[name]\<close> is
  \<^verbatim>\<open>undefined\<close> or what \<^verbatim>\<open>Object.prototype\<close> has under that name, in no case a string, and
  an assignment creates the own property. The name \<^verbatim>\<open>__proto__\<close> is the exception: it is
  an accessor of the prototype, \<^verbatim>\<open>cache["__proto__"]\<close> is the prototype object, and
  assigning a string to it stores nothing.
\<close>

record LocalStorage =
  ls_items :: "string \<rightharpoonup> string"
  ls_writes :: "(string \<times> string) list"



record Storage =
  cache :: "string \<rightharpoonup> string"
  base :: LocalStorage




definition getItem :: "string \<Rightarrow> Storage \<Rightarrow> string option" where
  "getItem name s = ls_items (base s) name"









subsection \<open>The store's interface as one type\<close>

text \<open>
  Every action of the \<^verbatim>\<open>ConversationStore\<close> interface with its arguments (and the clock
  reading, random suffix or warning text it uses), and the state it leads to. The getters change
  nothing and are left out.
\<close>

datatype 'cfg store_action =
    SetConfig 'cfg
  | CreateConversation "string option" "string option" "string option" int string
  | CreateConversationWithLatestSession "string option" "string option" int string
  | SelectHistoryConversation Conversation
  | DeleteConversation string
  | SetCurrentConversation string
  | UpdateConversationTitle string string int
  | UpdateConversationMode string string int
  | ToggleFavorite string int
  | SnapshotConversations
  | SetStreamingActive bool
  | SetSessionDisconnected bool
  | SetPendingUserInput "string option"
  | AddDisconnectionWarning string string int
  | SetSessionLoading string bool
  | SetPendingNewConversation bool
  | AddMessage string ChatMessage int
  | UpdateLastMessage string string "UpdateOpts option" int
  | UpdateLastMessageReasoning string string "UpdateOpts option" int
  | UpdateLastMessageToolOutput string string "UpdateOpts option" int

fun perform :: "'cfg store_action \<Rightarrow> 'cfg ConversationStore \<Rightarrow> 'cfg ConversationStore" where
  "perform (SetConfig cfg) st = setConfig cfg st"
| "perform (CreateConversation ttl md sessionId now rnd) st =
     snd (createConversation ttl md sessionId now rnd st)"
| "perform (CreateConversationWithLatestSession ttl md now rnd) st =
     snd (createConversationWithLatestSession ttl md now rnd st)"
| "perform (SelectHistoryConversation conversation) st = selectHistoryConversation conversation st"
| "perform (DeleteConversation ident) st = deleteConversation ident st"
| "perform (SetCurrentConversation ident) st = setCurrentConversation ident st"
| "perform (UpdateConversationTitle ident ttl now) st = updateConversationTitle ident ttl now st"
| "perform (UpdateConversationMode ident md now) st = updateConversationMode ident md now st"
| "perform (ToggleFavorite ident now) st = toggleFavorite ident now st"
| "perform SnapshotConversations st = snapshotConversations st"
| "perform (SetStreamingActive active) st = setStreamingActive active st"
| "perform (SetSessionDisconnected disconnected) st = setSessionDisconnected disconnected st"
| "perform (SetPendingUserInput input) st = setPendingUserInput input st"
| "perform (AddDisconnectionWarning conversationId warning now) st =
     addDisconnectionWarning conversationId warning now st"
| "perform (SetSessionLoading sessionId loading) st = setSessionLoading sessionId loading st"
| "perform (SetPendingNewConversation pending) st = setPendingNewConversation pending st"
| "perform (AddMessage conversationId message now) st = addMessage conversationId message now st"
| "perform (UpdateLastMessage conversationId cont opts now) st =
     updateLastMessage conversationId cont opts now st"
| "perform (UpdateLastMessageReasoning conversationId reas opts now) st =
     updateLastMessageReasoning conversationId reas opts now st"
| "perform (UpdateLastMessageToolOutput conversationId output opts now) st =
     updateLastMessageToolOutput conversationId output opts now st"

subsection \<open>Sample values\<close>

definition sample_message :: "string \<Rightarrow> Role \<Rightarrow> string \<Rightarrow> ChatMessage" where
  "sample_message ident r c =
     \<lparr> m_id = ident, role = r, content = c, timestamp = 0, isStreaming = None,
       reasoning = None, isReasoningStreaming = None, toolOutput = None,
       isToolStreaming = None \<rparr>"

definition sample_conversation :: "string \<Rightarrow> ChatMessage list \<Rightarrow> Conversation" where
  "sample_conversation ident msgs =
     \<lparr> c_id = ident, title = ''New Chat'', messages = msgs, mode = ''agent'',
       createdAt = 0, updatedAt = 0, isFavorite = False, isLoading = None \<rparr>"

definition sample_store :: "Conversation list \<Rightarrow> string option \<Rightarrow> nat ConversationStore" where
  "sample_store convs cur =
     (initial_store 0)\<lparr>conversations := convs, currentConversationId := cur\<rparr>"

section \<open>The event hook\<close>

text \<open>
  \<^verbatim>\<open>useCodexEvents({ sessionId, onApprovalRequest })\<close>. The event type of
  \<^verbatim>\<open>@/types/codex\<close> is read off the handler switch: one constructor for each
  \<^verbatim>\<open>msg.type\<close> it names and one for any other tag. Payloads the hook only passes on are
  kept as text.
\<close>

datatype EventMsg =
    SessionConfigured string
  | TaskStarted
  | TaskComplete
  | TurnComplete
  | AgentMessage "string option" "string option"
  | AgentMessageDelta string
  | AgentReasoningDelta
  | ExecApprovalRequest string string
  | PatchApprovalRequest string string
  | ErrorEvent string
  | ShutdownComplete
  | BackgroundEvent string
  | ExecCommandBegin
  | ExecCommandOutputDelta "string option"
  | ExecCommandEnd
  | Unhandled string

record CodexEvent =
  e_id :: string
  e_msg :: EventMsg

datatype ApprovalRequest =
    ExecApproval string string string
  | PatchApproval string string string

text \<open>The \<^verbatim>\<open>ChatMessage\<close> of \<^verbatim>\<open>@/types/codex\<close>, which the hook converts for the store.\<close>

datatype MessageType = UserType | AgentType | SystemType

record CodexChatMessage =
  cm_id :: string
  cm_type :: MessageType
  cm_content :: string
  cm_timestamp :: int
  cm_isStreaming :: "bool option"

text \<open>One \<^verbatim>\<open>console.log\<close> call of the hook: its arguments.\<close>

datatype LogArg = Str string | Obj CodexEvent

text \<open>
  What one call of the hook binds for its closures: the \<^verbatim>\<open>sessionId\<close> property and the
  \<^verbatim>\<open>conversations\<close> array destructured from \<^verbatim>\<open>useConversationStore()\<close> at that
  render. The listener is registered by an effect that depends on \<^verbatim>\<open>sessionId\<close> only,
  and the store replaces its arrays instead of changing them, so the array the handler
  reads under the name \<^verbatim>\<open>conversations\<close> is this one for as long as the subscription lasts.
\<close>

record Closure =
  cl_sessionId :: string
  cl_conversations :: "Conversation list"

text \<open>
  What the handler can change: the store (through its actions and
  \<^verbatim>\<open>useConversationStore.getState()\<close>), the closure's \<^verbatim>\<open>bufferRef.current\<close> and
  \<^verbatim>\<open>flushTimer\<close>, the host's pending timeouts (handle and delay in milliseconds; every
  timeout of the hook runs \<^verbatim>\<open>flushBuffer\<close>), the calls of \<^verbatim>\<open>onApprovalRequest\<close>,
  and the console.
\<close>

record 'cfg World =
  store :: "'cfg ConversationStore"
  bufferRef :: string
  flushTimer :: "nat option"
  timeouts :: "(nat \<times> nat) list"
  nextTimeout :: nat
  approvals :: "ApprovalRequest list"
  console :: "LogArg list list"

definition getEventSessionId :: "CodexEvent \<Rightarrow> string option" where
  "getEventSessionId event =
     (case e_msg event of SessionConfigured session_id \<Rightarrow> Some session_id | _ \<Rightarrow> None)"

text \<open>\<^verbatim>\<open>setTimeout(flushBuffer, delay)\<close>: a new handle, and the timeout pending.\<close>

definition setTimeout :: "nat \<Rightarrow> 'cfg World \<Rightarrow> nat \<times> 'cfg World" where
  "setTimeout delay w =
     (nextTimeout w,
      w\<lparr>timeouts := timeouts w @ [(nextTimeout w, delay)], nextTimeout := Suc (nextTimeout w)\<rparr>)"

text \<open>\<^verbatim>\<open>conv?.messages || []\<close> and \<^verbatim>\<open>last?.content || ''\<close>.\<close>

definition messages_of :: "Conversation option \<Rightarrow> ChatMessage list" where
  "messages_of conv = (case conv of Some c \<Rightarrow> messages c | None \<Rightarrow> [])"

definition content_of :: "ChatMessage option \<Rightarrow> string" where
  "content_of m = (case m of Some l \<Rightarrow> content l | None \<Rightarrow> [])"

definition flushBuffer :: "Closure \<Rightarrow> int \<Rightarrow> 'cfg World \<Rightarrow> 'cfg World" where
  "flushBuffer cl now w =
     (if bufferRef w = [] then w
      else (let conv = find (\<lambda>c. c_id c = cl_sessionId cl) (cl_conversations cl);
                msgs = messages_of conv;
                lst = last_opt msgs;
                newContent = content_of lst @ bufferRef w
            in w\<lparr>store := updateLastMessage (cl_sessionId cl) newContent
                              (Some \<lparr>opt_isStreaming = Some True\<rparr>) now (store w),
                 bufferRef := [],
                 flushTimer := None\<rparr>))"

definition addMessageToStore ::
  "Closure \<Rightarrow> CodexChatMessage \<Rightarrow> int \<Rightarrow> string \<Rightarrow> 'cfg World \<Rightarrow> 'cfg World" where
  "addMessageToStore cl message now rnd w =
     (let conversationExists = find (\<lambda>conv. c_id conv = cl_sessionId cl) (cl_conversations cl);
          w1 = (case conversationExists of
                  None \<Rightarrow>
                    w\<lparr>console := console w @
                         [[Str (''Creating conversation for session '' @ cl_sessionId cl @ '' from event'')]],
                      store := snd (createConversation (Some ''New Chat'') (Some ''agent'')
                                      (Some (cl_sessionId cl)) now rnd (store w))\<rparr>
                | Some c \<Rightarrow> w);
          conversationMessage =
            \<lparr> m_id = cm_id message,
              role = (case cm_type message of
                        UserType \<Rightarrow> User | AgentType \<Rightarrow> Assistant | SystemType \<Rightarrow> System),
              content = cm_content message,
              timestamp = cm_timestamp message,
              isStreaming = None, reasoning = None, isReasoningStreaming = None,
              toolOutput = None, isToolStreaming = None \<rparr>
      in w1\<lparr>console := console w1 @
                [[Str (''Adding message to session '' @ cl_sessionId cl @ '':''),
                  Str (take 100 (content conversationMessage))]],
             store := addMessage (cl_sessionId cl) conversationMessage now (store w1)\<rparr>)"

text \<open>
  The opening of the \<^verbatim>\<open>agent_message\<close> and \<^verbatim>\<open>agent_message_delta\<close> cases: look the
  conversation up in the closure's array; when it is not there, create it and look it up
  in the store's current state.
\<close>

definition find_or_create ::
  "Closure \<Rightarrow> int \<Rightarrow> string \<Rightarrow> 'cfg World \<Rightarrow> Conversation option \<times> 'cfg World" where
  "find_or_create cl now rnd w =
     (case find (\<lambda>c. c_id c = cl_sessionId cl) (cl_conversations cl) of
        Some conv \<Rightarrow> (Some conv, w)
      | None \<Rightarrow>
          (let w1 = w\<lparr>store := snd (createConversation (Some ''New Chat'') (Some ''agent'')
                                      (Some (cl_sessionId cl)) now rnd (store w))\<rparr>
           in (find (\<lambda>c. c_id c = cl_sessionId cl) (conversations (store w1)), w1)))"

definition last_is_assistant :: "ChatMessage option \<Rightarrow> bool" where
  "last_is_assistant lst = (case lst of Some m \<Rightarrow> role m = Assistant | None \<Rightarrow> False)"

text \<open>The tail of the \<^verbatim>\<open>task_complete\<close> and \<^verbatim>\<open>turn_complete\<close> cases, which are the same.\<close>

definition complete :: "Closure \<Rightarrow> int \<Rightarrow> 'cfg World \<Rightarrow> 'cfg World" where
  "complete cl now w =
     (let w1 = flushBuffer cl now w;
          w2 = w1\<lparr>store := setSessionLoading (cl_sessionId cl) False (store w1)\<rparr>;
          conv = find (\<lambda>c. c_id c = cl_sessionId cl) (cl_conversations cl);
          msgs = messages_of conv
      in if length msgs > 0
         then w2\<lparr>store := updateLastMessage (cl_sessionId cl)
                             (content (msgs ! (length msgs - 1)))
                             (Some \<lparr>opt_isStreaming = Some False\<rparr>) now (store w2)\<rparr>
         else w2)"

definition handleCodexEvent ::
  "Closure \<Rightarrow> CodexEvent \<Rightarrow> int \<Rightarrow> string \<Rightarrow> 'cfg World \<Rightarrow> 'cfg World" where
  "handleCodexEvent cl event now rnd w =
     (case e_msg event of
        SessionConfigured session_id \<Rightarrow>
          w\<lparr>console := console w @ [[Str ''Session configured:'', Str session_id]]\<rparr>
      | TaskStarted \<Rightarrow>
          w\<lparr>store := setSessionLoading (cl_sessionId cl) True (store w)\<rparr>
      | TaskComplete \<Rightarrow> complete cl now w
      | TurnComplete \<Rightarrow> complete cl now w
      | AgentMessage message last_agent_message \<Rightarrow>
          (let cont = str_or last_agent_message (str_or message [])
           in if cont \<noteq> []
              then (let (conv, w1) = find_or_create cl now rnd w;
                        msgs = messages_of conv;
                        lst = last_opt msgs
                    in if last_is_assistant lst
                       then w1\<lparr>store := updateLastMessage (cl_sessionId cl) cont
                                           (Some \<lparr>opt_isStreaming = Some True\<rparr>) now (store w1)\<rparr>
                       else addMessageToStore cl
                              \<lparr> cm_id = cl_sessionId cl @ ''-'' @ dec_int now @ ''-'' @ rnd,
                                cm_type = AgentType, cm_content = cont, cm_timestamp = now,
                                cm_isStreaming = Some True \<rparr>
                              now rnd w1)
              else w)
      | AgentMessageDelta delta \<Rightarrow>
          (let (conv, w1) = find_or_create cl now rnd w;
               msgs = messages_of conv;
               lst = last_opt msgs;
               w2 = (if \<not> last_is_assistant lst
                     then addMessageToStore cl
                            \<lparr> cm_id = cl_sessionId cl @ ''-'' @ dec_int now @ ''-'' @ rnd,
                              cm_type = AgentType, cm_content = [], cm_timestamp = now,
                              cm_isStreaming = Some True \<rparr>
                            now rnd w1
                     else w1);
               w3 = w2\<lparr>bufferRef := bufferRef w2 @ delta\<rparr>
           in if flushTimer w3 = None \<or> flushTimer w3 = Some 0
              then (let (handle, w4) = setTimeout 80 w3 in w4\<lparr>flushTimer := Some handle\<rparr>)
              else w3)
      | AgentReasoningDelta \<Rightarrow> w
      | ExecApprovalRequest command cwd \<Rightarrow>
          w\<lparr>approvals := approvals w @ [ExecApproval (e_id event) command cwd]\<rparr>
      | PatchApprovalRequest patch files \<Rightarrow>
          w\<lparr>approvals := approvals w @ [PatchApproval (e_id event) patch files]\<rparr>
      | ErrorEvent message \<Rightarrow>
          (let w1 = addMessageToStore cl
                      \<lparr> cm_id = cl_sessionId cl @ ''-error-'' @ dec_int now @ ''-'' @ rnd,
                        cm_type = SystemType, cm_content = ''Error: '' @ message,
                        cm_timestamp = now, cm_isStreaming = None \<rparr>
                      now rnd w
           in w1\<lparr>store := setSessionLoading (cl_sessionId cl) False (store w1)\<rparr>)
      | ShutdownComplete \<Rightarrow>
          w\<lparr>console := console w @ [[Str ''Session shutdown completed'']]\<rparr>
      | BackgroundEvent message \<Rightarrow>
          w\<lparr>console := console w @ [[Str ''Background event:'', Str message]]\<rparr>
      | ExecCommandBegin \<Rightarrow>
          w\<lparr>console := console w @ [[Str ''Command execution started'']]\<rparr>
      | ExecCommandOutputDelta stream \<Rightarrow>
          w\<lparr>console := console w @ [[Str ''Command output:'', Str (str_or stream [])]]\<rparr>
      | ExecCommandEnd \<Rightarrow>
          w\<lparr>console := console w @ [[Str ''Command execution completed'']]\<rparr>
      | Unhandled tag \<Rightarrow>
          w\<lparr>console := console w @ [[Str ''Unhandled event type:'', Str tag]]\<rparr>)"

text \<open>
  \<^verbatim>\<open>s.replace(pat, rep)\<close> with a string pattern: the first occurrence of \<open>pat\<close> is
  replaced, wherever it stands.
\<close>

fun replace_first :: "string \<Rightarrow> string \<Rightarrow> string \<Rightarrow> string" where
  "replace_first pat rep [] = (if pat = [] then rep else [])"
| "replace_first pat rep (c # cs) =
     (if take (length pat) (c # cs) = pat then rep @ drop (length pat) (c # cs)
      else c # replace_first pat rep cs)"

text \<open>The callback given to \<^verbatim>\<open>listen("codex-events", ...)\<close>.\<close>

definition listener ::
  "Closure \<Rightarrow> CodexEvent \<Rightarrow> int \<Rightarrow> string \<Rightarrow> 'cfg World \<Rightarrow> 'cfg World" where
  "listener cl codexEvent now rnd w =
     (let eventSessionId = getEventSessionId codexEvent;
          ourSessionId = replace_first ''codex-event-'' [] (cl_sessionId cl)
      in if (case eventSessionId of
               Some s \<Rightarrow> s \<noteq> [] \<and> s \<noteq> ourSessionId | None \<Rightarrow> False)
         then w
         else handleCodexEvent cl codexEvent now rnd
                (w\<lparr>console := console w @
                     [[Str (''Received codex event for session '' @ cl_sessionId cl @ '':''),
                       Obj codexEvent]]\<rparr>))"

text \<open>
  A subscription from its start: the effect registers the listener unless \<^verbatim>\<open>sessionId\<close>
  is empty; then events arrive and timeouts fire, one at a time.
\<close>

definition mount :: "string \<Rightarrow> 'cfg ConversationStore \<Rightarrow> Closure \<times> 'cfg World" where
  "mount sid st =
     (\<lparr> cl_sessionId = sid, cl_conversations = conversations st \<rparr>,
      \<lparr> store = st, bufferRef = [], flushTimer = None, timeouts = [], nextTimeout = 1,
        approvals = [], console = [] \<rparr>)"

definition timeout_fires :: "Closure \<Rightarrow> nat \<Rightarrow> int \<Rightarrow> 'cfg World \<Rightarrow> 'cfg World" where
  "timeout_fires cl handle now w =
     (if handle \<in> fst ` set (timeouts w)
      then flushBuffer cl now (w\<lparr>timeouts := filter (\<lambda>t. fst t \<noteq> handle) (timeouts w)\<rparr>)
      else w)"

datatype step = Event CodexEvent int string | Timeout nat int

fun run_step :: "Closure \<Rightarrow> step \<Rightarrow> 'cfg World \<Rightarrow> 'cfg World" where
  "run_step cl (Event codexEvent now rnd) w =
     (if cl_sessionId cl = [] then w else listener cl codexEvent now rnd w)"
| "run_step cl (Timeout handle now) w = timeout_fires cl handle now w"

fun run_steps :: "Closure \<Rightarrow> step list \<Rightarrow> 'cfg World \<Rightarrow> 'cfg World" where
  "run_steps cl [] w = w"
| "run_steps cl (s # ss) w = run_steps cl ss (run_step cl s w)"

text \<open>The session's conversation in the store, and the last message of it.\<close>

definition session_last :: "string \<Rightarrow> 'cfg ConversationStore \<Rightarrow> ChatMessage option" where
  "session_last sid st =
     last_opt (messages_of (find (\<lambda>c. c_id c = sid) (conversations st)))"

text \<open>Removing a prefix, for comparison with \<open>replace_first\<close>.\<close>

definition remove_prefix :: "string \<Rightarrow> string \<Rightarrow> string" where
  "remove_prefix pat s = (if take (length pat) s = pat then drop (length pat) s else s)"

subsection \<open>Sample events\<close>

definition sample_event :: "EventMsg \<Rightarrow> CodexEvent" where
  "sample_event m = \<lparr> e_id = ''e1'', e_msg = m \<rparr>"

definition sample_closure :: "string \<Rightarrow> Conversation list \<Rightarrow> Closure" where
  "sample_closure sid convs = \<lparr> cl_sessionId = sid, cl_conversations = convs \<rparr>"

definition sample_world :: "nat ConversationStore \<Rightarrow> string \<Rightarrow> nat World" where
  "sample_world st buf =
     \<lparr> store = st, bufferRef = buf, flushTimer = None, timeouts = [], nextTimeout = 1,
       approvals = [], console = [] \<rparr>"

section \<open>The store's objects and arrays by reference\<close>

text \<open>
  In the program a conversation list is an array of references to conversation objects,
  and a conversation holds a reference to its array of references to message objects. The
  snapshot and the live list are such arrays, and whether a later action can change what
  the snapshot shows depends on which objects and arrays the two share. Here the heap is
  explicit: four tables, an address being an index into its table. An allocation appends
  to a table; an assignment to an array element replaces the array at its address.
\<close>

type_synonym addr = nat

record HConversation =
  hc_id :: string
  hc_title :: string
  hc_messages :: addr
  hc_mode :: string
  hc_createdAt :: int
  hc_updatedAt :: int
  hc_isFavorite :: bool
  hc_isLoading :: "bool option"

record Heap =
  message_objects :: "ChatMessage list"
  message_arrays :: "addr list list"
  conversation_objects :: "HConversation list"
  conversation_arrays :: "addr list list"

text \<open>The state object of the store, its two conversation lists by reference.\<close>

record 'cfg HStore =
  h_config :: 'cfg
  h_conversations :: addr
  h_conversationsSnapshot :: "addr option"
  h_currentConversationId :: "string option"
  h_sessionDisconnected :: bool
  h_pendingUserInput :: "string option"
  h_pendingNewConversation :: bool
  h_streamingActive :: bool

definition new_message :: "ChatMessage \<Rightarrow> Heap \<Rightarrow> addr \<times> Heap" where
  "new_message m H =
     (length (message_objects H), H\<lparr>message_objects := message_objects H @ [m]\<rparr>)"

definition new_message_array :: "addr list \<Rightarrow> Heap \<Rightarrow> addr \<times> Heap" where
  "new_message_array ms H =
     (length (message_arrays H), H\<lparr>message_arrays := message_arrays H @ [ms]\<rparr>)"

definition new_conversation :: "HConversation \<Rightarrow> Heap \<Rightarrow> addr \<times> Heap" where
  "new_conversation c H =
     (length (conversation_objects H), H\<lparr>conversation_objects := conversation_objects H @ [c]\<rparr>)"

definition new_conversation_array :: "addr list \<Rightarrow> Heap \<Rightarrow> addr \<times> Heap" where
  "new_conversation_array cs H =
     (length (conversation_arrays H), H\<lparr>conversation_arrays := conversation_arrays H @ [cs]\<rparr>)"

text \<open>\<^verbatim>\<open>arr[i] = m\<close> on the message array at address \<open>a\<close>.\<close>

definition set_message_at :: "addr \<Rightarrow> nat \<Rightarrow> addr \<Rightarrow> Heap \<Rightarrow> Heap" where
  "set_message_at a i m H =
     H\<lparr>message_arrays := (message_arrays H)[a := (message_arrays H ! a)[i := m]]\<rparr>"

text \<open>
  \<^verbatim>\<open>arr.map(callback)\<close> on an array of conversations: the callback runs on each
  element in turn and may allocate; the results go into a new array.
\<close>

fun map_heap :: "(addr \<Rightarrow> Heap \<Rightarrow> addr \<times> Heap) \<Rightarrow> addr list \<Rightarrow> Heap \<Rightarrow> addr list \<times> Heap" where
  "map_heap f [] H = ([], H)"
| "map_heap f (c # cs) H =
     (case f c H of (c', H1) \<Rightarrow>
        (case map_heap f cs H1 of (cs', H2) \<Rightarrow> (c' # cs', H2)))"

definition map_conversations ::
  "(addr \<Rightarrow> Heap \<Rightarrow> addr \<times> Heap) \<Rightarrow> addr \<Rightarrow> Heap \<Rightarrow> addr \<times> Heap" where
  "map_conversations f a H =
     (case map_heap f (conversation_arrays H ! a) H of
        (cs', H1) \<Rightarrow> new_conversation_array cs' H1)"

subsection \<open>The actions on the heap\<close>

definition h_snapshotConversations :: "Heap \<times> 'cfg HStore \<Rightarrow> Heap \<times> 'cfg HStore" where
  "h_snapshotConversations X =
     (case X of (H, hs) \<Rightarrow>
        (case map_conversations
                (\<lambda>c H. let conv = conversation_objects H ! c;
                            (a, H1) = new_message_array (message_arrays H ! hc_messages conv) H
                        in new_conversation (conv\<lparr>hc_messages := a\<rparr>) H1)
                (h_conversations hs) H of
           (snapshot, H') \<Rightarrow> (H', hs\<lparr>h_conversationsSnapshot := Some snapshot\<rparr>)))"

definition h_deleteConversation :: "string \<Rightarrow> Heap \<times> 'cfg HStore \<Rightarrow> Heap \<times> 'cfg HStore" where
  "h_deleteConversation ident X =
     (case X of (H, hs) \<Rightarrow>
        (let kept = filter (\<lambda>c. hc_id (conversation_objects H ! c) \<noteq> ident)
                      (conversation_arrays H ! h_conversations hs);
             (updatedConversations, H') = new_conversation_array kept H;
             newCurrentId =
               (if h_currentConversationId hs = Some ident
                then (if length kept > 0
                      then Some (hc_id (conversation_objects H' ! hd kept)) else None)
                else h_currentConversationId hs)
         in (H', hs\<lparr>h_conversations := updatedConversations,
                     h_currentConversationId := newCurrentId\<rparr>)))"

definition h_updateConversationTitle ::
  "string \<Rightarrow> string \<Rightarrow> int \<Rightarrow> Heap \<times> 'cfg HStore \<Rightarrow> Heap \<times> 'cfg HStore" where
  "h_updateConversationTitle ident ttl now X =
     (case X of (H, hs) \<Rightarrow>
        (case map_conversations
                (\<lambda>c H. let conv = conversation_objects H ! c
                        in if hc_id conv = ident
                           then new_conversation (conv\<lparr>hc_title := ttl, hc_updatedAt := now\<rparr>) H
                           else (c, H))
                (h_conversations hs) H of
           (updated, H') \<Rightarrow> (H', hs\<lparr>h_conversations := updated\<rparr>)))"

definition h_toggleFavorite ::
  "string \<Rightarrow> int \<Rightarrow> Heap \<times> 'cfg HStore \<Rightarrow> Heap \<times> 'cfg HStore" where
  "h_toggleFavorite ident now X =
     (case X of (H, hs) \<Rightarrow>
        (case map_conversations
                (\<lambda>c H. let conv = conversation_objects H ! c
                        in if hc_id conv = ident
                           then new_conversation
                                  (conv\<lparr>hc_isFavorite := \<not> hc_isFavorite conv, hc_updatedAt := now\<rparr>) H
                           else (c, H))
                (h_conversations hs) H of
           (updated, H') \<Rightarrow> (H', hs\<lparr>h_conversations := updated\<rparr>)))"

text \<open>
  \<^verbatim>\<open>addMessage(conversationId, message)\<close>: the caller's message object is allocated
  first; \<^verbatim>\<open>[...conv.messages, message]\<close> is a new array.
\<close>

definition h_addMessage ::
  "string \<Rightarrow> ChatMessage \<Rightarrow> int \<Rightarrow> Heap \<times> 'cfg HStore \<Rightarrow> Heap \<times> 'cfg HStore" where
  "h_addMessage conversationId message now X =
     (case X of (H, hs) \<Rightarrow>
        (case new_message message H of (m, H0) \<Rightarrow>
           (case map_conversations
                   (\<lambda>c H. let conv = conversation_objects H ! c
                           in if hc_id conv = conversationId
                              then (let ms = message_arrays H ! hc_messages conv @ [m];
                                        (updatedMessages, H1) = new_message_array ms H;
                                        ttl = (if hc_title conv = ''New Conversation'' \<and> length ms = 1
                                               then generateTitle (map (\<lambda>r. message_objects H1 ! r) ms)
                                               else hc_title conv)
                                    in new_conversation
                                         (conv\<lparr>hc_messages := updatedMessages, hc_title := ttl,
                                               hc_updatedAt := now\<rparr>) H1)
                              else (c, H))
                   (h_conversations hs) H0 of
              (updated, H') \<Rightarrow> (H', hs\<lparr>h_conversations := updated\<rparr>))))"

text \<open>
  The three \<^verbatim>\<open>updateLastMessage*\<close> actions: \<^verbatim>\<open>[...conv.messages]\<close> is a new array,
  \<^verbatim>\<open>{...lastMessage, ...}\<close> a new message object, which is assigned to the last element
  of the new array; \<^verbatim>\<open>{...conv, messages: updatedMessages}\<close> is a new conversation object.
\<close>

definition h_update_last ::
  "(ChatMessage \<Rightarrow> ChatMessage) \<Rightarrow> string \<Rightarrow> UpdateOpts option \<Rightarrow> int \<Rightarrow>
   addr \<Rightarrow> Heap \<Rightarrow> addr \<times> Heap" where
  "h_update_last patch conversationId opts now c H =
     (let conv = conversation_objects H ! c
      in if hc_id conv = conversationId \<and> length (message_arrays H ! hc_messages conv) > 0
         then (let (updatedMessages, H1) =
                     new_message_array (message_arrays H ! hc_messages conv) H;
                   n = length (message_arrays H1 ! updatedMessages);
                   lastMessage = message_objects H1 ! (message_arrays H1 ! updatedMessages ! (n - 1));
                   (m, H2) = new_message (patch lastMessage) H1;
                   H3 = set_message_at updatedMessages (n - 1) m H2
               in if opts_streaming opts
                  then new_conversation (conv\<lparr>hc_messages := updatedMessages\<rparr>) H3
                  else new_conversation
                         (conv\<lparr>hc_messages := updatedMessages, hc_updatedAt := now\<rparr>) H3)
         else (c, H))"

definition h_updateLastMessage ::
  "string \<Rightarrow> string \<Rightarrow> UpdateOpts option \<Rightarrow> int \<Rightarrow>
   Heap \<times> 'cfg HStore \<Rightarrow> Heap \<times> 'cfg HStore" where
  "h_updateLastMessage conversationId cont opts now X =
     (case X of (H, hs) \<Rightarrow>
        (case map_conversations
                (h_update_last
                   (\<lambda>lastMessage.
                      (case opts_defined opts of
                         Some b \<Rightarrow> lastMessage\<lparr>content := cont, isStreaming := Some b\<rparr>
                       | None \<Rightarrow> lastMessage\<lparr>content := cont\<rparr>))
                   conversationId opts now)
                (h_conversations hs) H of
           (updated, H') \<Rightarrow> (H', hs\<lparr>h_conversations := updated\<rparr>)))"

definition h_updateLastMessageReasoning ::
  "string \<Rightarrow> string \<Rightarrow> UpdateOpts option \<Rightarrow> int \<Rightarrow>
   Heap \<times> 'cfg HStore \<Rightarrow> Heap \<times> 'cfg HStore" where
  "h_updateLastMessageReasoning conversationId reas opts now X =
     (case X of (H, hs) \<Rightarrow>
        (case map_conversations
                (h_update_last
                   (\<lambda>lastMessage.
                      (case opts_defined opts of
                         Some b \<Rightarrow> lastMessage\<lparr>reasoning := Some reas, isReasoningStreaming := Some b\<rparr>
                       | None \<Rightarrow> lastMessage\<lparr>reasoning := Some reas\<rparr>))
                   conversationId opts now)
                (h_conversations hs) H of
           (updated, H') \<Rightarrow> (H', hs\<lparr>h_conversations := updated\<rparr>)))"

definition h_updateLastMessageToolOutput ::
  "string \<Rightarrow> string \<Rightarrow> UpdateOpts option \<Rightarrow> int \<Rightarrow>
   Heap \<times> 'cfg HStore \<Rightarrow> Heap \<times> 'cfg HStore" where
  "h_updateLastMessageToolOutput conversationId output opts now X =
     (case X of (H, hs) \<Rightarrow>
        (case map_conversations
                (h_update_last
                   (\<lambda>lastMessage.
                      (case opts_defined opts of
                         Some b \<Rightarrow> lastMessage\<lparr>toolOutput := Some output, isToolStreaming := Some b\<rparr>
                       | None \<Rightarrow> lastMessage\<lparr>toolOutput := Some output\<rparr>))
                   conversationId opts now)
                (h_conversations hs) H of
           (updated, H') \<Rightarrow> (H', hs\<lparr>h_conversations := updated\<rparr>)))"

text \<open>The mutations of the live conversations, and a sequence of them.\<close>

datatype mutation =
    M_addMessage string ChatMessage int
  | M_updateLastMessage string string "UpdateOpts option" int
  | M_updateLastMessageReasoning string string "UpdateOpts option" int
  | M_updateLastMessageToolOutput string string "UpdateOpts option" int
  | M_updateConversationTitle string string int
  | M_toggleFavorite string int
  | M_deleteConversation string

fun h_mutate :: "mutation \<Rightarrow> Heap \<times> 'cfg HStore \<Rightarrow> Heap \<times> 'cfg HStore" where
  "h_mutate (M_addMessage conversationId message now) X = h_addMessage conversationId message now X"
| "h_mutate (M_updateLastMessage conversationId cont opts now) X =
     h_updateLastMessage conversationId cont opts now X"
| "h_mutate (M_updateLastMessageReasoning conversationId reas opts now) X =
     h_updateLastMessageReasoning conversationId reas opts now X"
| "h_mutate (M_updateLastMessageToolOutput conversationId output opts now) X =
     h_updateLastMessageToolOutput conversationId output opts now X"
| "h_mutate (M_updateConversationTitle ident ttl now) X = h_updateConversationTitle ident ttl now X"
| "h_mutate (M_toggleFavorite ident now) X = h_toggleFavorite ident now X"
| "h_mutate (M_deleteConversation ident) X = h_deleteConversation ident X"

fun h_mutations :: "mutation list \<Rightarrow> Heap \<times> 'cfg HStore \<Rightarrow> Heap \<times> 'cfg HStore" where
  "h_mutations [] X = X"
| "h_mutations (m # ms) X = h_mutations ms (h_mutate m X)"

fun mutate :: "mutation \<Rightarrow> 'cfg ConversationStore \<Rightarrow> 'cfg ConversationStore" where
  "mutate (M_addMessage conversationId message now) st = addMessage conversationId message now st"
| "mutate (M_updateLastMessage conversationId cont opts now) st =
     updateLastMessage conversationId cont opts now st"
| "mutate (M_updateLastMessageReasoning conversationId reas opts now) st =
     updateLastMessageReasoning conversationId reas opts now st"
| "mutate (M_updateLastMessageToolOutput conversationId output opts now) st =
     updateLastMessageToolOutput conversationId output opts now st"
| "mutate (M_updateConversationTitle ident ttl now) st = updateConversationTitle ident ttl now st"
| "mutate (M_toggleFavorite ident now) st = toggleFavorite ident now st"
| "mutate (M_deleteConversation ident) st = deleteConversation ident st"

subsection \<open>Reading the heap\<close>

text \<open>
  What a conversation list shows: the conversations an array refers to, each with the
  messages its message array refers to.
\<close>

definition read_messages :: "Heap \<Rightarrow> addr \<Rightarrow> ChatMessage list" where
  "read_messages H a = map (\<lambda>m. message_objects H ! m) (message_arrays H ! a)"

definition with_messages :: "HConversation \<Rightarrow> ChatMessage list \<Rightarrow> Conversation" where
  "with_messages conv msgs =
     \<lparr> c_id = hc_id conv, title = hc_title conv, messages = msgs, mode = hc_mode conv,
       createdAt = hc_createdAt conv, updatedAt = hc_updatedAt conv,
       isFavorite = hc_isFavorite conv, isLoading = hc_isLoading conv \<rparr>"

definition read_conversation :: "Heap \<Rightarrow> addr \<Rightarrow> Conversation" where
  "read_conversation H c =
     (let conv = conversation_objects H ! c
      in with_messages conv (read_messages H (hc_messages conv)))"

definition read_conversations :: "Heap \<Rightarrow> addr \<Rightarrow> Conversation list" where
  "read_conversations H a = map (read_conversation H) (conversation_arrays H ! a)"

text \<open>The references a conversation object's message array holds.\<close>

definition message_refs :: "Heap \<Rightarrow> addr \<Rightarrow> addr list" where
  "message_refs H c = message_arrays H ! hc_messages (conversation_objects H ! c)"

definition read_state :: "Heap \<times> 'cfg HStore \<Rightarrow> 'cfg ConversationStore" where
  "read_state X =
     (case X of (H, hs) \<Rightarrow>
        \<lparr> config = h_config hs,
          conversations = read_conversations H (h_conversations hs),
          conversationsSnapshot = map_option (read_conversations H) (h_conversationsSnapshot hs),
          currentConversationId = h_currentConversationId hs,
          sessionDisconnected = h_sessionDisconnected hs,
          pendingUserInput = h_pendingUserInput hs,
          pendingNewConversation = h_pendingNewConversation hs,
          streamingActive = h_streamingActive hs \<rparr>)"

text \<open>A heap without dangling references, as every heap of the program is.\<close>

definition valid_messages :: "Heap \<Rightarrow> addr \<Rightarrow> bool" where
  "valid_messages H a =
     (a < length (message_arrays H) \<and>
      (\<forall>m \<in> set (message_arrays H ! a). m < length (message_objects H)))"

definition valid_conversation :: "Heap \<Rightarrow> addr \<Rightarrow> bool" where
  "valid_conversation H c =
     (c < length (conversation_objects H) \<and>
      valid_messages H (hc_messages (conversation_objects H ! c)))"

definition valid_conversations :: "Heap \<Rightarrow> addr \<Rightarrow> bool" where
  "valid_conversations H a =
     (a < length (conversation_arrays H) \<and>
      (\<forall>c \<in> set (conversation_arrays H ! a). valid_conversation H c))"

definition valid_state :: "Heap \<times> 'cfg HStore \<Rightarrow> bool" where
  "valid_state X =
     (case X of (H, hs) \<Rightarrow>
        valid_conversations H (h_conversations hs) \<and>
        (case h_conversationsSnapshot hs of
           None \<Rightarrow> True | Some snapshot \<Rightarrow> valid_conversations H snapshot))"

text \<open>
  One heap extends another when each table of the first is an initial part of the same
  table of the second: what was allocated is still there, unchanged. A callback of
  \<open>map_heap\<close> carries out a function \<open>g\<close> on conversations, above a heap \<open>H0\<close>, when on
  every heap that extends \<open>H0\<close> and every valid conversation it extends the heap and
  returns a valid conversation that reads as \<open>g\<close> of the one it was given.
\<close>

definition heap_extends :: "Heap \<Rightarrow> Heap \<Rightarrow> bool" where
  "heap_extends H H' =
     (prefix (message_objects H) (message_objects H') \<and>
      prefix (message_arrays H) (message_arrays H') \<and>
      prefix (conversation_objects H) (conversation_objects H') \<and>
      prefix (conversation_arrays H) (conversation_arrays H'))"

definition carries_out ::
  "Heap \<Rightarrow> (addr \<Rightarrow> Heap \<Rightarrow> addr \<times> Heap) \<Rightarrow> (Conversation \<Rightarrow> Conversation) \<Rightarrow> bool" where
  "carries_out H0 f g =
     (\<forall>H c. heap_extends H0 H \<and> valid_conversation H c \<longrightarrow>
        heap_extends H (snd (f c H)) \<and>
        valid_conversation (snd (f c H)) (fst (f c H)) \<and>
        read_conversation (snd (f c H)) (fst (f c H)) = g (read_conversation H c))"

text \<open>A sample heap: one conversation with one message.\<close>

definition sample_heap :: Heap where
  "sample_heap =
     \<lparr> message_objects = [sample_message ''m1'' Assistant ''Hel''],
       message_arrays = [[0]],
       conversation_objects =
         [\<lparr> hc_id = ''s1'', hc_title = ''New Chat'', hc_messages = 0, hc_mode = ''agent'',
            hc_createdAt = 0, hc_updatedAt = 0, hc_isFavorite = False, hc_isLoading = None \<rparr>],
       conversation_arrays = [[0]] \<rparr>"

definition sample_hstore :: "nat HStore" where
  "sample_hstore =
     \<lparr> h_config = 0, h_conversations = 0, h_conversationsSnapshot = None,
       h_currentConversationId = None, h_sessionDisconnected = False,
       h_pendingUserInput = None, h_pendingNewConversation = False,
       h_streamingActive = False \<rparr>"

section \<open>Properties of the persisted subset\<close>

text \<open>
  Claim C1. While \<open>streamingActive\<close> is true, \<open>partialize\<close> returns the configuration and
  the current conversation id and no conversation list; otherwise it returns these two and
  the conversation list, which is the snapshot when there is one and the live list when
  there is none.
\<close>

theorem partialize_policy:
  "(streamingActive st \<longrightarrow>
      partialize st =
        \<lparr> p_config = Some (config st), p_conversations = None,
          p_currentConversationId = currentConversationId st \<rparr>) \<and>
   (\<not> streamingActive st \<longrightarrow>
      p_config (partialize st) = Some (config st) \<and>
      p_currentConversationId (partialize st) = currentConversationId st \<and>
      (\<forall>snapshot. conversationsSnapshot st = Some snapshot \<longrightarrow>
         p_conversations (partialize st) = Some snapshot) \<and>
      (conversationsSnapshot st = None \<longrightarrow>
         p_conversations (partialize st) = Some (conversations st)))"
  by (simp add: partialize_def)

theorem partialize_policy_witness:
  "partialize ((initial_store (7::nat))\<lparr>streamingActive := True\<rparr>) =
     \<lparr> p_config = Some 7, p_conversations = None, p_currentConversationId = None \<rparr> \<and>
   p_conversations (partialize (initial_store (7::nat))) = Some [] \<and>
   p_conversations (partialize ((initial_store (7::nat))\<lparr>conversationsSnapshot := Some []\<rparr>))
     = Some []"
  using partialize_policy [of "(initial_store (7::nat))\<lparr>streamingActive := True\<rparr>"]
        partialize_policy [of "initial_store (7::nat)"]
        partialize_policy [of "(initial_store (7::nat))\<lparr>conversationsSnapshot := Some []\<rparr>"]
  by (simp add: initial_store_def)

text \<open>
  Claim C5. For a version below 4, \<open>migrate\<close> sets the configuration to the default when
  the persisted state has none and keeps the one it has, and leaves every other field as it
  was; for version 4 and above it returns the persisted state as it is.
\<close>

theorem migrate_version_gate:
  "(version < 4 \<longrightarrow>
      (p_config p = None \<longrightarrow> p_config (migrate d p version) = Some d) \<and>
      (\<forall>c. p_config p = Some c \<longrightarrow> p_config (migrate d p version) = Some c) \<and>
      p_conversations (migrate d p version) = p_conversations p \<and>
      p_currentConversationId (migrate d p version) = p_currentConversationId p \<and>
      PersistedState.more (migrate d p version) = PersistedState.more p) \<and>
   (4 \<le> version \<longrightarrow> migrate d p version = p)"
  by (simp add: migrate_def)

theorem migrate_version_gate_witness:
  "p_config (migrate (1::nat)
      \<lparr> p_config = None, p_conversations = Some [], p_currentConversationId = None \<rparr> 3) = Some 1 \<and>
   p_config (migrate (1::nat)
      \<lparr> p_config = Some 2, p_conversations = Some [], p_currentConversationId = None \<rparr> 3) = Some 2 \<and>
   migrate (1::nat)
      \<lparr> p_config = None, p_conversations = Some [], p_currentConversationId = None \<rparr> 4
     = \<lparr> p_config = None, p_conversations = Some [], p_currentConversationId = None \<rparr>"
  using migrate_version_gate [of 3
          "\<lparr> p_config = None, p_conversations = Some [], p_currentConversationId = None \<rparr>" "1::nat"]
        migrate_version_gate [of 3
          "\<lparr> p_config = Some (2::nat), p_conversations = Some [], p_currentConversationId = None \<rparr>" 1]
        migrate_version_gate [of 4
          "\<lparr> p_config = None, p_conversations = Some [], p_currentConversationId = None \<rparr>" "1::nat"]
  by simp

subsection \<open>Skipping identical writes\<close>






section \<open>Properties of the store actions\<close>

lemma sample_conversation_sel [simp]:
  "c_id (sample_conversation ident msgs) = ident"
  "messages (sample_conversation ident msgs) = msgs"
  by (simp_all add: sample_conversation_def)

lemma sample_store_sel [simp]:
  "conversations (sample_store convs cur) = convs"
  "currentConversationId (sample_store convs cur) = cur"
  by (simp_all add: sample_store_def)

subsection \<open>Deleting a conversation\<close>

text \<open>
  Claim C10. After \<open>deleteConversation ident\<close> no conversation with that id is left and
  the conversations with another id are the same as before, in the same order. When the
  current conversation id was \<open>ident\<close>, it becomes the id of the first conversation left,
  or null when none is left; otherwise it stays as it was.
\<close>

theorem deleteConversation_effect:
  "(\<forall>conv \<in> set (conversations (deleteConversation ident st)). c_id conv \<noteq> ident) \<and>
   filter (\<lambda>conv. c_id conv \<noteq> ident) (conversations (deleteConversation ident st))
     = filter (\<lambda>conv. c_id conv \<noteq> ident) (conversations st) \<and>
   (currentConversationId st = Some ident \<longrightarrow>
      (conversations (deleteConversation ident st) = [] \<longrightarrow>
         currentConversationId (deleteConversation ident st) = None) \<and>
      (conversations (deleteConversation ident st) \<noteq> [] \<longrightarrow>
         currentConversationId (deleteConversation ident st)
           = Some (c_id (hd (conversations (deleteConversation ident st)))))) \<and>
   (currentConversationId st \<noteq> Some ident \<longrightarrow>
      currentConversationId (deleteConversation ident st) = currentConversationId st)"
  by (simp add: deleteConversation_def Let_def)

theorem deleteConversation_effect_witness:
  "currentConversationId (deleteConversation ''a''
      (sample_store [sample_conversation ''a'' [], sample_conversation ''b'' []] (Some ''a'')))
     = Some ''b'' \<and>
   currentConversationId (deleteConversation ''a''
      (sample_store [sample_conversation ''a'' []] (Some ''a''))) = None \<and>
   currentConversationId (deleteConversation ''b''
      (sample_store [sample_conversation ''a'' [], sample_conversation ''b'' []] (Some ''a'')))
     = Some ''a''"
proof -
  let ?ab = "sample_store [sample_conversation ''a'' [], sample_conversation ''b'' []] (Some ''a'')"
  let ?a = "sample_store [sample_conversation ''a'' []] (Some ''a'')"
  have left: "conversations (deleteConversation ''a'' ?ab) = [sample_conversation ''b'' []]"
    by (simp add: deleteConversation_def Let_def)
  have none_left: "conversations (deleteConversation ''a'' ?a) = []"
    by (simp add: deleteConversation_def Let_def)
  have "currentConversationId (deleteConversation ''a'' ?ab)
          = Some (c_id (hd (conversations (deleteConversation ''a'' ?ab))))"
    using deleteConversation_effect [of "''a''" ?ab] left by simp
  then have 1: "currentConversationId (deleteConversation ''a'' ?ab) = Some ''b''"
    by (simp only: left list.sel sample_conversation_sel)
  have 2: "currentConversationId (deleteConversation ''a'' ?a) = None"
    using deleteConversation_effect [of "''a''" ?a] none_left by simp
  have 3: "currentConversationId (deleteConversation ''b'' ?ab) = Some ''a''"
    using deleteConversation_effect [of "''b''" ?ab] by simp
  from 1 2 3 show ?thesis by simp
qed

subsection \<open>Updating the last message of a conversation that has none\<close>

lemma update_last_idle:
  "(c_id conv = conversationId \<longrightarrow> messages conv = []) \<Longrightarrow>
   update_last patch conversationId opts now conv = conv"
  by (auto simp: update_last_def)

lemma map_update_last_idle:
  "\<forall>conv \<in> set convs. c_id conv = conversationId \<longrightarrow> messages conv = [] \<Longrightarrow>
   map (update_last patch conversationId opts now) convs = convs"
  by (induction convs) (simp_all add: update_last_idle)

text \<open>
  Claim C9. When no conversation of the store has the id \<open>conversationId\<close>, or the
  conversation that has it (with pairwise distinct ids there is at most one; otherwise
  each of them) has an empty message list, each of \<open>updateLastMessage\<close>,
  \<open>updateLastMessageReasoning\<close> and \<open>updateLastMessageToolOutput\<close> returns the store state
  it was given.
\<close>

theorem updateLast_without_message:
  assumes "\<forall>conv \<in> set (conversations st). c_id conv = conversationId \<longrightarrow> messages conv = []"
  shows "updateLastMessage conversationId cont opts now st = st \<and>
         updateLastMessageReasoning conversationId reas opts now st = st \<and>
         updateLastMessageToolOutput conversationId output opts now st = st"
  using assms
  by (simp add: updateLastMessage_def updateLastMessageReasoning_def
                updateLastMessageToolOutput_def map_update_last_idle)

theorem updateLast_without_message_witness:
  "updateLastMessage ''a'' ''x'' None 1
     (sample_store [sample_conversation ''a'' [],
                    sample_conversation ''b'' [sample_message ''m'' Assistant ''hi'']] None)
     = sample_store [sample_conversation ''a'' [],
                     sample_conversation ''b'' [sample_message ''m'' Assistant ''hi'']] None \<and>
   updateLastMessageReasoning ''c'' ''x'' None 1
     (sample_store [sample_conversation ''a'' [],
                    sample_conversation ''b'' [sample_message ''m'' Assistant ''hi'']] None)
     = sample_store [sample_conversation ''a'' [],
                     sample_conversation ''b'' [sample_message ''m'' Assistant ''hi'']] None"
proof -
  let ?st = "sample_store [sample_conversation ''a'' [],
                           sample_conversation ''b'' [sample_message ''m'' Assistant ''hi'']] None"
  have a: "\<forall>conv \<in> set (conversations ?st). c_id conv = ''a'' \<longrightarrow> messages conv = []"
    by simp
  have c: "\<forall>conv \<in> set (conversations ?st). c_id conv = ''c'' \<longrightarrow> messages conv = []"
    by simp
  show ?thesis
    using updateLast_without_message [OF a, of "''x''" None 1 "''x''" "''x''"]
          updateLast_without_message [OF c, of "''x''" None 1 "''x''" "''x''"]
    by blast
qed

subsection \<open>Conversation ids\<close>

lemma c_id_update_last [simp]:
  "c_id (update_last patch conversationId opts now conv) = c_id conv"
  by (simp add: update_last_def Let_def)

lemma find_c_id_None:
  "find (\<lambda>conv. c_id conv = ident) convs = None \<longleftrightarrow> ident \<notin> c_id ` set convs"
  by (auto simp: find_None_iff)

lemma createConversation_ids:
  "distinct (map c_id (conversations st)) \<Longrightarrow>
   distinct (map c_id (conversations (snd (createConversation ttl md sessionId now rnd st))))"
  by (auto simp: createConversation_def Let_def find_c_id_None split: option.splits)

lemma perform_ids:
  "distinct (map c_id (conversations st)) \<Longrightarrow>
   distinct (map c_id (conversations (perform a st)))"
proof (cases a)
  case (CreateConversation ttl md sessionId now rnd)
  then show "distinct (map c_id (conversations st)) \<Longrightarrow> ?thesis"
    by (simp add: createConversation_ids)
next
  case (CreateConversationWithLatestSession ttl md now rnd)
  then show "distinct (map c_id (conversations st)) \<Longrightarrow> ?thesis"
    by (simp add: createConversationWithLatestSession_def createConversation_ids)
next
  case (DeleteConversation ident)
  then show "distinct (map c_id (conversations st)) \<Longrightarrow> ?thesis"
    by (simp add: deleteConversation_def Let_def distinct_map_filter)
next
  case SnapshotConversations
  then show "distinct (map c_id (conversations st)) \<Longrightarrow> ?thesis"
    by (simp add: snapshotConversations_def Let_def)
qed (simp_all add: setConfig_def selectHistoryConversation_def setCurrentConversation_def
       updateConversationTitle_def updateConversationMode_def toggleFavorite_def
       setStreamingActive_def setSessionDisconnected_def setPendingUserInput_def
       addDisconnectionWarning_def setSessionLoading_def setPendingNewConversation_def
       addMessage_def updateLastMessage_def updateLastMessageReasoning_def
       updateLastMessageToolOutput_def Let_def o_def if_distrib [of c_id] cong: if_cong)

text \<open>
  Claim C8, as the code has it. Every store action keeps the conversation ids pairwise
  distinct. \<open>createConversation\<close> with a non-empty \<open>sessionId\<close> that is the id of a
  conversation of the store adds no conversation, returns that id, and changes nothing but
  the current conversation id, which becomes that id.
\<close>

theorem conversation_ids_stay_unique:
  "(distinct (map c_id (conversations st)) \<longrightarrow>
      distinct (map c_id (conversations (perform a st)))) \<and>
   (sessionId \<noteq> [] \<and> sessionId \<in> c_id ` set (conversations st) \<longrightarrow>
      createConversation ttl md (Some sessionId) now rnd st
        = (sessionId, st\<lparr>currentConversationId := Some sessionId\<rparr>))"
proof (intro conjI impI)
  assume "distinct (map c_id (conversations st))"
  then show "distinct (map c_id (conversations (perform a st)))"
    by (rule perform_ids)
next
  assume h: "sessionId \<noteq> [] \<and> sessionId \<in> c_id ` set (conversations st)"
  then have "find (\<lambda>conv. c_id conv = sessionId) (conversations st) \<noteq> None"
    by (simp add: find_c_id_None)
  with h show "createConversation ttl md (Some sessionId) now rnd st
                 = (sessionId, st\<lparr>currentConversationId := Some sessionId\<rparr>)"
    by (auto simp: createConversation_def str_or_def Let_def split: option.splits)
qed

theorem conversation_ids_stay_unique_witness:
  "distinct (map c_id (conversations
      (perform (CreateConversation None None (Some ''b'') 5 ''r'')
         (sample_store [sample_conversation ''a'' []] None)))) \<and>
   createConversation None None (Some ''a'') 5 ''r'' (sample_store [sample_conversation ''a'' []] None)
     = (''a'', (sample_store [sample_conversation ''a'' []] None)
                 \<lparr>currentConversationId := Some ''a''\<rparr>)"
  using conversation_ids_stay_unique
          [of "sample_store [sample_conversation ''a'' []] None"
              "CreateConversation None None (Some ''b'') 5 ''r''" "''a''" None None 5 "''r''"]
  by simp

text \<open>
  The claim without the restriction to a non-empty \<open>sessionId\<close> fails: the empty string
  is the id of a conversation of the store below, and \<open>createConversation\<close> with it adds a
  conversation under a generated id and returns that id.
\<close>

theorem createConversation_empty_sessionId_counterexample:
  "distinct (map c_id (conversations (sample_store [sample_conversation '''' []] None))) \<and>
   '''' \<in> c_id ` set (conversations (sample_store [sample_conversation '''' []] None)) \<and>
   fst (createConversation None None (Some '''') 5 ''r''
          (sample_store [sample_conversation '''' []] None)) = ''codex-event-5-r'' \<and>
   length (conversations (snd (createConversation None None (Some '''') 5 ''r''
          (sample_store [sample_conversation '''' []] None)))) = 2"
  by (simp add: createConversation_def str_or_def generated_id_def dec_int_def dec_nat.simps
        digit_char_def sample_store_def sample_conversation_def initial_store_def Let_def)

section \<open>Properties of the event hook\<close>

subsection \<open>Filtering by session\<close>

lemma replace_first_prefix:
  "take (length pat) s = pat \<Longrightarrow> replace_first pat rep s = rep @ drop (length pat) s"
  by (cases s) auto

lemma replace_first_is_remove_prefix:
  "take (length pat) s = pat \<Longrightarrow> replace_first pat [] s = remove_prefix pat s"
  by (simp add: replace_first_prefix remove_prefix_def)

text \<open>
  Claim C2, as the code has it. A \<open>session_configured\<close> event whose session id is not
  empty and differs from the subscriber's session id with the first occurrence of
  \<open>codex-event-\<close> removed (for an id that starts with it, the id without this prefix) is
  dropped: the listener returns the world as it was, so the handler switch has not run and
  the store is unchanged. Every event that carries no session id is passed to the handler
  switch, and so is a \<open>session_configured\<close> event whose session id is empty.
\<close>

theorem listener_filters_by_session:
  "(\<forall>sid. e_msg event = SessionConfigured sid \<and> sid \<noteq> [] \<and>
          sid \<noteq> replace_first ''codex-event-'' [] (cl_sessionId cl) \<longrightarrow>
      listener cl event now rnd w = w) \<and>
   (take (length ''codex-event-'') (cl_sessionId cl) = ''codex-event-'' \<longrightarrow>
      replace_first ''codex-event-'' [] (cl_sessionId cl)
        = remove_prefix ''codex-event-'' (cl_sessionId cl)) \<and>
   (getEventSessionId event = None \<or> getEventSessionId event = Some [] \<longrightarrow>
      listener cl event now rnd w =
        handleCodexEvent cl event now rnd
          (w\<lparr>console := console w @
               [[Str (''Received codex event for session '' @ cl_sessionId cl @ '':''),
                 Obj event]]\<rparr>))"
proof (intro conjI allI impI)
  fix sid
  assume "e_msg event = SessionConfigured sid \<and> sid \<noteq> [] \<and>
          sid \<noteq> replace_first ''codex-event-'' [] (cl_sessionId cl)"
  then show "listener cl event now rnd w = w"
    by (simp add: listener_def getEventSessionId_def)
next
  assume "take (length ''codex-event-'') (cl_sessionId cl) = ''codex-event-''"
  then show "replace_first ''codex-event-'' [] (cl_sessionId cl)
               = remove_prefix ''codex-event-'' (cl_sessionId cl)"
    by (rule replace_first_is_remove_prefix)
next
  assume "getEventSessionId event = None \<or> getEventSessionId event = Some []"
  then show "listener cl event now rnd w =
        handleCodexEvent cl event now rnd
          (w\<lparr>console := console w @
               [[Str (''Received codex event for session '' @ cl_sessionId cl @ '':''),
                 Obj event]]\<rparr>)"
    by (auto simp: listener_def)
qed

lemma sample_event_msg [simp]: "e_msg (sample_event m) = m"
  by (simp add: sample_event_def)

lemma sample_closure_sel [simp]:
  "cl_sessionId (sample_closure sid convs) = sid"
  "cl_conversations (sample_closure sid convs) = convs"
  by (simp_all add: sample_closure_def)

theorem listener_filters_by_session_witness:
  "listener (sample_closure ''codex-event-1'' []) (sample_event (SessionConfigured ''2'')) 0 ''r''
     (sample_world (initial_store 0) []) = sample_world (initial_store 0) [] \<and>
   replace_first ''codex-event-'' [] ''codex-event-1'' = remove_prefix ''codex-event-'' ''codex-event-1'' \<and>
   listener (sample_closure ''codex-event-1'' []) (sample_event TaskStarted) 0 ''r''
     (sample_world (initial_store 0) [])
     = handleCodexEvent (sample_closure ''codex-event-1'' []) (sample_event TaskStarted) 0 ''r''
         ((sample_world (initial_store 0) [])\<lparr>console := console (sample_world (initial_store 0) []) @
               [[Str (''Received codex event for session '' @ ''codex-event-1'' @ '':''),
                 Obj (sample_event TaskStarted)]]\<rparr>)"
proof -
  have a: "e_msg (sample_event (SessionConfigured ''2'')) = SessionConfigured ''2'' \<and> ''2'' \<noteq> [] \<and>
           ''2'' \<noteq> replace_first ''codex-event-'' [] (cl_sessionId (sample_closure ''codex-event-1'' []))"
    by simp
  have b: "take (length ''codex-event-'') (cl_sessionId (sample_closure ''codex-event-1'' [])) = ''codex-event-''"
    by simp
  have c: "getEventSessionId (sample_event TaskStarted) = None \<or>
           getEventSessionId (sample_event TaskStarted) = Some []"
    by (simp add: getEventSessionId_def)
  from a listener_filters_by_session
         [of "sample_event (SessionConfigured ''2'')" "sample_closure ''codex-event-1'' []" 0 "''r''"
             "sample_world (initial_store 0) []"]
  have 1: "listener (sample_closure ''codex-event-1'' []) (sample_event (SessionConfigured ''2'')) 0 ''r''
     (sample_world (initial_store 0) []) = sample_world (initial_store 0) []"
    by blast
  from b listener_filters_by_session
         [of "sample_event TaskStarted" "sample_closure ''codex-event-1'' []" 0 "''r''"
             "sample_world (initial_store 0) []"]
  have 2: "replace_first ''codex-event-'' [] (cl_sessionId (sample_closure ''codex-event-1'' []))
             = remove_prefix ''codex-event-'' (cl_sessionId (sample_closure ''codex-event-1'' []))"
    by blast
  from c listener_filters_by_session
         [of "sample_event TaskStarted" "sample_closure ''codex-event-1'' []" 0 "''r''"
             "sample_world (initial_store 0) []"]
  have 3: "listener (sample_closure ''codex-event-1'' []) (sample_event TaskStarted) 0 ''r''
     (sample_world (initial_store 0) [])
     = handleCodexEvent (sample_closure ''codex-event-1'' []) (sample_event TaskStarted) 0 ''r''
         ((sample_world (initial_store 0) [])\<lparr>console := console (sample_world (initial_store 0) []) @
               [[Str (''Received codex event for session '' @
                      cl_sessionId (sample_closure ''codex-event-1'' []) @ '':''),
                 Obj (sample_event TaskStarted)]]\<rparr>)"
    by blast
  from 1 2 3 show ?thesis
    by simp
qed

text \<open>
  The claim as it stands fails in two ways. A \<open>session_configured\<close> event with the empty
  session id carries an id that differs from the subscriber's, and the handler switch
  runs on it (the console shows its line). And for a subscriber whose id holds
  \<open>codex-event-\<close> after its start, the event id is compared with the id without that
  occurrence: the event below differs from the subscriber's id after removal of a prefix
  (there is none to remove), and the handler switch runs on it.
\<close>

theorem listener_filter_counterexample:
  "getEventSessionId (sample_event (SessionConfigured [])) = Some [] \<and>
   [] \<noteq> remove_prefix ''codex-event-'' ''codex-event-1'' \<and>
   console (listener (sample_closure ''codex-event-1'' []) (sample_event (SessionConfigured [])) 0 ''r''
              (sample_world (initial_store 0) []))
     = [[Str ''Received codex event for session codex-event-1:'',
         Obj (sample_event (SessionConfigured []))],
        [Str ''Session configured:'', Str []]] \<and>
   getEventSessionId (sample_event (SessionConfigured ''x-1'')) = Some ''x-1'' \<and>
   ''x-1'' \<noteq> remove_prefix ''codex-event-'' ''x-codex-event-1'' \<and>
   console (listener (sample_closure ''x-codex-event-1'' []) (sample_event (SessionConfigured ''x-1'')) 0 ''r''
              (sample_world (initial_store 0) []))
     = [[Str ''Received codex event for session x-codex-event-1:'',
         Obj (sample_event (SessionConfigured ''x-1''))],
        [Str ''Session configured:'', Str ''x-1'']]"
  by (simp add: listener_def getEventSessionId_def handleCodexEvent_def remove_prefix_def
        sample_world_def)

subsection \<open>The streaming buffer\<close>

lemmas hook_eval = listener_def getEventSessionId_def handleCodexEvent_def
  find_or_create_def addMessageToStore_def flushBuffer_def complete_def setTimeout_def
  timeout_fires_def messages_of_def content_of_def last_opt_def last_is_assistant_def
  sample_event_def sample_world_def sample_closure_def

lemmas store_eval = createConversation_def addMessage_def updateLastMessage_def update_last_def
  setSessionLoading_def str_or_def opts_defined_def opts_streaming_def initial_store_def
  sample_store_def sample_conversation_def sample_message_def
  dec_int_def dec_nat.simps digit_char_def Let_def

lemma flushBuffer_empty: "bufferRef w = [] \<Longrightarrow> flushBuffer cl now w = w"
  by (simp add: flushBuffer_def)

lemma flushBuffer_clears: "bufferRef (flushBuffer cl now w) = []"
  by (simp add: flushBuffer_def Let_def)

lemma addMessageToStore_frame:
  "bufferRef (addMessageToStore cl message now rnd w) = bufferRef w"
  "flushTimer (addMessageToStore cl message now rnd w) = flushTimer w"
  "timeouts (addMessageToStore cl message now rnd w) = timeouts w"
  "nextTimeout (addMessageToStore cl message now rnd w) = nextTimeout w"
  by (simp_all add: addMessageToStore_def Let_def split: option.splits)

lemma find_or_create_frame:
  "bufferRef (snd (find_or_create cl now rnd w)) = bufferRef w"
  "flushTimer (snd (find_or_create cl now rnd w)) = flushTimer w"
  "timeouts (snd (find_or_create cl now rnd w)) = timeouts w"
  "nextTimeout (snd (find_or_create cl now rnd w)) = nextTimeout w"
  by (simp_all add: find_or_create_def Let_def split: option.splits)

lemma delta_appends_to_buffer:
  "e_msg event = AgentMessageDelta delta \<Longrightarrow>
   bufferRef (handleCodexEvent cl event now rnd w) = bufferRef w @ delta"
  by (simp add: handleCodexEvent_def Let_def setTimeout_def split_beta
        addMessageToStore_frame find_or_create_frame)

lemma delta_schedules_flush:
  "e_msg event = AgentMessageDelta delta \<Longrightarrow> flushTimer w = None \<Longrightarrow>
   flushTimer (handleCodexEvent cl event now rnd w) = Some (nextTimeout w) \<and>
   timeouts (handleCodexEvent cl event now rnd w) = timeouts w @ [(nextTimeout w, 80)]"
  by (simp add: handleCodexEvent_def Let_def setTimeout_def split_beta
        addMessageToStore_frame find_or_create_frame)

lemma delta_keeps_pending_flush:
  "e_msg event = AgentMessageDelta delta \<Longrightarrow> flushTimer w = Some (Suc h) \<Longrightarrow>
   flushTimer (handleCodexEvent cl event now rnd w) = Some (Suc h) \<and>
   timeouts (handleCodexEvent cl event now rnd w) = timeouts w"
  by (simp add: handleCodexEvent_def Let_def setTimeout_def split_beta
        addMessageToStore_frame find_or_create_frame)

lemma find_map_same_id:
  "(\<And>conv. c_id (f conv) = c_id conv) \<Longrightarrow>
   find (\<lambda>c. c_id c = sid) (map f convs) = map_option f (find (\<lambda>c. c_id c = sid) convs)"
  by (induction convs) simp_all

lemma session_last_updateLastMessage:
  assumes "session_last sid st = Some m"
  shows "session_last sid (updateLastMessage sid cont (Some \<lparr>opt_isStreaming = Some b\<rparr>) now st)
           = Some (m\<lparr>content := cont, isStreaming := Some b\<rparr>)"
proof -
  obtain conv where f: "find (\<lambda>c. c_id c = sid) (conversations st) = Some conv"
    using assms by (cases "find (\<lambda>c. c_id c = sid) (conversations st)")
                   (simp_all add: session_last_def messages_of_def last_opt_def)
  then have ne: "messages conv \<noteq> []" and m: "last (messages conv) = m"
    using assms by (simp_all add: session_last_def messages_of_def last_opt_def split: if_splits)
  from f have i: "c_id conv = sid"
    by (auto simp: find_Some_iff)
  have l: "messages conv ! (length (messages conv) - 1) = m"
    using ne m by (simp add: last_conv_nth)
  show ?thesis
    using f ne i l
    by (simp add: session_last_def updateLastMessage_def find_map_same_id messages_of_def
          last_opt_def update_last_def opts_defined_def opts_streaming_def Let_def
          last_list_update)
qed

text \<open>
  When the closure's array agrees with the store on the content of the session's last
  message, a flush appends the buffered text to that content.
\<close>

lemma flushBuffer_appends_when_current:
  assumes "session_last (cl_sessionId cl) (store w) = Some m"
    and "content_of (last_opt (messages_of
           (find (\<lambda>c. c_id c = cl_sessionId cl) (cl_conversations cl)))) = content m"
    and "bufferRef w \<noteq> []"
  shows "session_last (cl_sessionId cl) (store (flushBuffer cl now w))
           = Some (m\<lparr>content := content m @ bufferRef w, isStreaming := Some True\<rparr>)"
  using assms
  by (simp add: flushBuffer_def Let_def session_last_updateLastMessage)

lemma complete_clears_loading:
  "\<forall>conv \<in> set (conversations (store (complete cl now w))).
     c_id conv = cl_sessionId cl \<longrightarrow> isLoading conv = Some False"
  by (auto simp: complete_def Let_def setSessionLoading_def updateLastMessage_def update_last_def)

text \<open>
  Claim C3 on a run. A subscriber for session \<open>s1\<close> starts on the empty store; the
  fragments \<open>Hel\<close> and \<open>lo\<close> arrive, and the timeout scheduled for each fires before the
  next event. The first flush puts \<open>Hel\<close> into the last message of the session's
  conversation. The second fragment is buffered, and the second flush leaves \<open>lo\<close> as the
  content of that message, not \<open>Hello\<close>: the flush takes the old content from the closure's
  array, where the session has no conversation.
\<close>

theorem flush_replaces_streamed_text:
  "mount ''s1'' (initial_store 0) = (sample_closure ''s1'' [], sample_world (initial_store 0) []) \<and>
   map_option content (session_last ''s1'' (store (run_steps (sample_closure ''s1'' [])
      [Event (sample_event (AgentMessageDelta ''Hel'')) 1 ''r'', Timeout 1 2]
      (sample_world (initial_store 0) [])))) = Some ''Hel'' \<and>
   bufferRef (run_steps (sample_closure ''s1'' [])
      [Event (sample_event (AgentMessageDelta ''Hel'')) 1 ''r'', Timeout 1 2,
       Event (sample_event (AgentMessageDelta ''lo'')) 3 ''q'']
      (sample_world (initial_store 0) [])) = ''lo'' \<and>
   map_option content (session_last ''s1'' (store (run_steps (sample_closure ''s1'' [])
      [Event (sample_event (AgentMessageDelta ''Hel'')) 1 ''r'', Timeout 1 2,
       Event (sample_event (AgentMessageDelta ''lo'')) 3 ''q'', Timeout 2 4]
      (sample_world (initial_store 0) [])))) = Some ''lo''"
proof -
  let ?cl = "sample_closure ''s1'' []"
  let ?w0 = "sample_world (initial_store 0) []"
  let ?st = "\<lambda>c s.
     \<lparr> config = 0::nat,
       conversations =
         [\<lparr> c_id = ''s1'', title = ''New Chat'',
            messages = [\<lparr> m_id = ''s1-1-r'', role = Assistant, content = c, timestamp = 1,
                          isStreaming = s, reasoning = None, isReasoningStreaming = None,
                          toolOutput = None, isToolStreaming = None \<rparr>],
            mode = ''agent'', createdAt = 1, updatedAt = 1, isFavorite = False,
            isLoading = None \<rparr>],
       conversationsSnapshot = None, currentConversationId = Some ''s1'',
       sessionDisconnected = False, pendingUserInput = None, pendingNewConversation = True,
       streamingActive = False \<rparr>"
  let ?log1 = "[[Str ''Received codex event for session s1:'',
                 Obj (sample_event (AgentMessageDelta ''Hel''))],
                [Str ''Creating conversation for session s1 from event''],
                [Str ''Adding message to session s1:'', Str []]]"
  let ?log3 = "?log1 @ [[Str ''Received codex event for session s1:'',
                          Obj (sample_event (AgentMessageDelta ''lo''))]]"
  let ?w1 = "\<lparr> store = ?st [] None, bufferRef = ''Hel'', flushTimer = Some 1,
               timeouts = [(1, 80)], nextTimeout = 2, approvals = [], console = ?log1 \<rparr>"
  let ?w2 = "\<lparr> store = ?st ''Hel'' (Some True), bufferRef = [], flushTimer = None,
               timeouts = [], nextTimeout = 2, approvals = [], console = ?log1 \<rparr>"
  let ?w3 = "\<lparr> store = ?st ''Hel'' (Some True), bufferRef = ''lo'', flushTimer = Some 2,
               timeouts = [(2, 80)], nextTimeout = 3, approvals = [], console = ?log3 \<rparr>"
  let ?w4 = "\<lparr> store = ?st ''lo'' (Some True), bufferRef = [], flushTimer = None,
               timeouts = [], nextTimeout = 3, approvals = [], console = ?log3 \<rparr>"
  have m: "mount ''s1'' (initial_store 0) = (?cl, ?w0)"
    by (simp add: mount_def sample_closure_def sample_world_def initial_store_def)
  have 1: "run_step ?cl (Event (sample_event (AgentMessageDelta ''Hel'')) 1 ''r'') ?w0 = ?w1"
    by (simp add: hook_eval store_eval)
  have 2: "run_step ?cl (Timeout 1 2) ?w1 = ?w2"
    by (simp add: hook_eval store_eval)
  have 3: "run_step ?cl (Event (sample_event (AgentMessageDelta ''lo'')) 3 ''q'') ?w2 = ?w3"
    by (simp add: hook_eval store_eval)
  have 4: "run_step ?cl (Timeout 2 4) ?w3 = ?w4"
    by (simp add: hook_eval store_eval)
  have a: "map_option content (session_last ''s1'' (store ?w2)) = Some ''Hel''"
    by (simp add: session_last_def messages_of_def last_opt_def)
  have b: "bufferRef ?w3 = ''lo''"
    by simp
  have c: "map_option content (session_last ''s1'' (store ?w4)) = Some ''lo''"
    by (simp add: session_last_def messages_of_def last_opt_def)
  show ?thesis
    by (simp only: run_steps.simps m 1 2 3 4 a b c simp_thms)
qed

text \<open>
  A second run on the scheduling. The first fragment is empty: its timeout fires, the
  flush returns at once on the empty buffer and leaves \<open>flushTimer\<close> set. The next
  fragment is buffered with no timeout pending, and none is scheduled for it.
\<close>

lemma empty_fragment_blocks_scheduling:
  "bufferRef (run_steps (sample_closure ''s1'' [])
      [Event (sample_event (AgentMessageDelta [])) 1 ''r'', Timeout 1 2,
       Event (sample_event (AgentMessageDelta ''x'')) 3 ''q'']
      (sample_world (initial_store 0) [])) = ''x'' \<and>
   timeouts (run_steps (sample_closure ''s1'' [])
      [Event (sample_event (AgentMessageDelta [])) 1 ''r'', Timeout 1 2,
       Event (sample_event (AgentMessageDelta ''x'')) 3 ''q'']
      (sample_world (initial_store 0) [])) = [] \<and>
   flushTimer (run_steps (sample_closure ''s1'' [])
      [Event (sample_event (AgentMessageDelta [])) 1 ''r'', Timeout 1 2,
       Event (sample_event (AgentMessageDelta ''x'')) 3 ''q'']
      (sample_world (initial_store 0) [])) = Some 1"
proof -
  let ?cl = "sample_closure ''s1'' []"
  let ?w0 = "sample_world (initial_store 0) []"
  let ?st =
    "\<lparr> config = 0::nat,
       conversations =
         [\<lparr> c_id = ''s1'', title = ''New Chat'',
            messages = [\<lparr> m_id = ''s1-1-r'', role = Assistant, content = [], timestamp = 1,
                          isStreaming = None, reasoning = None, isReasoningStreaming = None,
                          toolOutput = None, isToolStreaming = None \<rparr>],
            mode = ''agent'', createdAt = 1, updatedAt = 1, isFavorite = False,
            isLoading = None \<rparr>],
       conversationsSnapshot = None, currentConversationId = Some ''s1'',
       sessionDisconnected = False, pendingUserInput = None, pendingNewConversation = True,
       streamingActive = False \<rparr>"
  let ?log1 = "[[Str ''Received codex event for session s1:'',
                 Obj (sample_event (AgentMessageDelta []))],
                [Str ''Creating conversation for session s1 from event''],
                [Str ''Adding message to session s1:'', Str []]]"
  let ?w1 = "\<lparr> store = ?st, bufferRef = [], flushTimer = Some 1,
               timeouts = [(1, 80)], nextTimeout = 2, approvals = [], console = ?log1 \<rparr>"
  let ?w2 = "\<lparr> store = ?st, bufferRef = [], flushTimer = Some 1,
               timeouts = [], nextTimeout = 2, approvals = [], console = ?log1 \<rparr>"
  let ?w3 = "\<lparr> store = ?st, bufferRef = ''x'', flushTimer = Some 1,
               timeouts = [], nextTimeout = 2, approvals = [],
               console = ?log1 @ [[Str ''Received codex event for session s1:'',
                                   Obj (sample_event (AgentMessageDelta ''x''))]] \<rparr>"
  have 1: "run_step ?cl (Event (sample_event (AgentMessageDelta [])) 1 ''r'') ?w0 = ?w1"
    by (simp add: hook_eval store_eval)
  have 2: "run_step ?cl (Timeout 1 2) ?w1 = ?w2"
    by (simp add: hook_eval store_eval)
  have 3: "run_step ?cl (Event (sample_event (AgentMessageDelta ''x'')) 3 ''q'') ?w2 = ?w3"
    by (simp add: hook_eval store_eval)
  have a: "bufferRef ?w3 = ''x''" and b: "timeouts ?w3 = []" and c: "flushTimer ?w3 = Some 1"
    by simp_all
  show ?thesis
    by (simp only: run_steps.simps 1 2 3 a b c simp_thms)
qed

text \<open>
  Claim C7 on two runs. On the first, the subscriber for \<open>s1\<close> starts on the empty store,
  one fragment arrives and then \<open>task_complete\<close>: the session's conversation has a last
  message, and its streaming flag is still true afterwards, since the handler looks for
  the message in the closure's array. On the second, the subscriber starts on a store
  where the session's last message reads \<open>Hel\<close>; the fragment \<open>lo\<close> arrives and then
  \<open>turn_complete\<close>: the flush makes the content \<open>Hello\<close>, and clearing the flag writes
  \<open>Hel\<close> back.
\<close>

theorem terminal_event_uses_stale_message:
  "map_option isStreaming (session_last ''s1'' (store (run_steps (sample_closure ''s1'' [])
      [Event (sample_event (AgentMessageDelta ''Hel'')) 1 ''r'',
       Event (sample_event TaskComplete) 2 ''q'']
      (sample_world (initial_store 0) [])))) = Some (Some True) \<and>
   mount ''s1'' (sample_store [sample_conversation ''s1'' [sample_message ''m1'' Assistant ''Hel'']] None)
     = (sample_closure ''s1'' [sample_conversation ''s1'' [sample_message ''m1'' Assistant ''Hel'']],
        sample_world (sample_store
           [sample_conversation ''s1'' [sample_message ''m1'' Assistant ''Hel'']] None) []) \<and>
   map_option content (session_last ''s1'' (store (flushBuffer
      (sample_closure ''s1'' [sample_conversation ''s1'' [sample_message ''m1'' Assistant ''Hel'']]) 4
      (run_steps
         (sample_closure ''s1'' [sample_conversation ''s1'' [sample_message ''m1'' Assistant ''Hel'']])
         [Event (sample_event (AgentMessageDelta ''lo'')) 3 ''q'']
         (sample_world (sample_store
            [sample_conversation ''s1'' [sample_message ''m1'' Assistant ''Hel'']] None) [])))))
     = Some ''Hello'' \<and>
   map_option content (session_last ''s1'' (store (run_steps
      (sample_closure ''s1'' [sample_conversation ''s1'' [sample_message ''m1'' Assistant ''Hel'']])
      [Event (sample_event (AgentMessageDelta ''lo'')) 3 ''q'',
       Event (sample_event TurnComplete) 4 ''q'']
      (sample_world (sample_store
         [sample_conversation ''s1'' [sample_message ''m1'' Assistant ''Hel'']] None) []))))
     = Some ''Hel''"
proof -
  let ?cl = "sample_closure ''s1'' []"
  let ?w0 = "sample_world (initial_store 0) []"
  let ?st = "\<lambda>c s l.
     \<lparr> config = 0::nat,
       conversations =
         [\<lparr> c_id = ''s1'', title = ''New Chat'',
            messages = [\<lparr> m_id = ''s1-1-r'', role = Assistant, content = c, timestamp = 1,
                          isStreaming = s, reasoning = None, isReasoningStreaming = None,
                          toolOutput = None, isToolStreaming = None \<rparr>],
            mode = ''agent'', createdAt = 1, updatedAt = 1, isFavorite = False,
            isLoading = l \<rparr>],
       conversationsSnapshot = None, currentConversationId = Some ''s1'',
       sessionDisconnected = False, pendingUserInput = None, pendingNewConversation = True,
       streamingActive = False \<rparr>"
  let ?log1 = "[[Str ''Received codex event for session s1:'',
                 Obj (sample_event (AgentMessageDelta ''Hel''))],
                [Str ''Creating conversation for session s1 from event''],
                [Str ''Adding message to session s1:'', Str []]]"
  let ?w1 = "\<lparr> store = ?st [] None None, bufferRef = ''Hel'', flushTimer = Some 1,
               timeouts = [(1, 80)], nextTimeout = 2, approvals = [], console = ?log1 \<rparr>"
  let ?w2 = "\<lparr> store = ?st ''Hel'' (Some True) (Some False), bufferRef = [], flushTimer = None,
               timeouts = [(1, 80)], nextTimeout = 2, approvals = [],
               console = ?log1 @ [[Str ''Received codex event for session s1:'',
                                   Obj (sample_event TaskComplete)]] \<rparr>"
  have 1: "run_step ?cl (Event (sample_event (AgentMessageDelta ''Hel'')) 1 ''r'') ?w0 = ?w1"
    by (simp add: hook_eval store_eval)
  have 2: "run_step ?cl (Event (sample_event TaskComplete) 2 ''q'') ?w1 = ?w2"
    by (simp add: hook_eval store_eval)
  have a: "map_option isStreaming (session_last ''s1'' (store ?w2)) = Some (Some True)"
    by (simp add: session_last_def messages_of_def last_opt_def)
  let ?convs = "[sample_conversation ''s1'' [sample_message ''m1'' Assistant ''Hel'']]"
  let ?dl = "sample_closure ''s1'' ?convs"
  let ?v0 = "sample_world (sample_store ?convs None) []"
  let ?su = "\<lambda>c s u l.
     \<lparr> config = 0::nat,
       conversations =
         [\<lparr> c_id = ''s1'', title = ''New Chat'',
            messages = [\<lparr> m_id = ''m1'', role = Assistant, content = c, timestamp = 0,
                          isStreaming = s, reasoning = None, isReasoningStreaming = None,
                          toolOutput = None, isToolStreaming = None \<rparr>],
            mode = ''agent'', createdAt = 0, updatedAt = u, isFavorite = False,
            isLoading = l \<rparr>],
       conversationsSnapshot = None, currentConversationId = None,
       sessionDisconnected = False, pendingUserInput = None, pendingNewConversation = False,
       streamingActive = False \<rparr>"
  let ?logv = "[[Str ''Received codex event for session s1:'',
                 Obj (sample_event (AgentMessageDelta ''lo''))]]"
  let ?v1 = "\<lparr> store = ?su ''Hel'' None 0 None, bufferRef = ''lo'', flushTimer = Some 1,
               timeouts = [(1, 80)], nextTimeout = 2, approvals = [], console = ?logv \<rparr>"
  let ?vf = "\<lparr> store = ?su ''Hello'' (Some True) 0 None, bufferRef = [], flushTimer = None,
               timeouts = [(1, 80)], nextTimeout = 2, approvals = [], console = ?logv \<rparr>"
  let ?v2 = "\<lparr> store = ?su ''Hel'' (Some False) 4 (Some False), bufferRef = [], flushTimer = None,
               timeouts = [(1, 80)], nextTimeout = 2, approvals = [],
               console = ?logv @ [[Str ''Received codex event for session s1:'',
                                   Obj (sample_event TurnComplete)]] \<rparr>"
  have m: "mount ''s1'' (sample_store ?convs None) = (?dl, ?v0)"
    by (simp add: mount_def sample_closure_def sample_world_def sample_store_def)
  have 3: "run_step ?dl (Event (sample_event (AgentMessageDelta ''lo'')) 3 ''q'') ?v0 = ?v1"
    by (simp add: hook_eval store_eval)
  have f: "flushBuffer ?dl 4 ?v1 = ?vf"
    by (simp add: hook_eval store_eval)
  have 4: "run_step ?dl (Event (sample_event TurnComplete) 4 ''q'') ?v1 = ?v2"
    by (simp add: hook_eval store_eval)
  have b: "map_option content (session_last ''s1'' (store ?vf)) = Some ''Hello''"
    by (simp add: session_last_def messages_of_def last_opt_def)
  have c: "map_option content (session_last ''s1'' (store ?v2)) = Some ''Hel''"
    by (simp add: session_last_def messages_of_def last_opt_def)
  show ?thesis
    by (simp only: run_steps.simps m 1 2 3 4 f a b c simp_thms)
qed

section \<open>The snapshot and later mutations\<close>

subsection \<open>Extending the heap\<close>

lemma prefix_nth: "prefix xs ys \<Longrightarrow> i < length xs \<Longrightarrow> ys ! i = xs ! i"
  by (auto simp: prefix_def nth_append)

lemma heap_extends_refl [simp]: "heap_extends H H"
  by (simp add: heap_extends_def)

lemma heap_extends_trans: "heap_extends H1 H2 \<Longrightarrow> heap_extends H2 H3 \<Longrightarrow> heap_extends H1 H3"
  unfolding heap_extends_def by (meson prefix_order.trans)

lemma heap_extends_new [simp]:
  "heap_extends H (snd (new_message m H))"
  "heap_extends H (snd (new_message_array ms H))"
  "heap_extends H (snd (new_conversation conv H))"
  "heap_extends H (snd (new_conversation_array cs H))"
  by (simp_all add: heap_extends_def new_message_def new_message_array_def
        new_conversation_def new_conversation_array_def)

lemma valid_messages_extends:
  assumes "heap_extends H H'" and "valid_messages H a"
  shows "valid_messages H' a" and "read_messages H' a = read_messages H a"
proof -
  from assms have a: "a < length (message_arrays H)"
    and ms: "\<forall>m \<in> set (message_arrays H ! a). m < length (message_objects H)"
    by (simp_all add: valid_messages_def)
  from assms(1) have pa: "prefix (message_arrays H) (message_arrays H')"
    and po: "prefix (message_objects H) (message_objects H')"
    by (simp_all add: heap_extends_def)
  have same: "message_arrays H' ! a = message_arrays H ! a"
    using pa a by (rule prefix_nth)
  have la: "a < length (message_arrays H')"
    using a prefix_length_le [OF pa] by simp
  have lo: "length (message_objects H) \<le> length (message_objects H')"
    using po by (rule prefix_length_le)
  show "valid_messages H' a"
    using la ms lo by (auto simp: valid_messages_def same)
  show "read_messages H' a = read_messages H a"
    using ms by (simp add: read_messages_def same prefix_nth [OF po])
qed

lemma valid_conversation_extends:
  assumes "heap_extends H H'" and "valid_conversation H c"
  shows "valid_conversation H' c" and "read_conversation H' c = read_conversation H c"
    and "conversation_objects H' ! c = conversation_objects H ! c"
proof -
  from assms have c: "c < length (conversation_objects H)"
    and v: "valid_messages H (hc_messages (conversation_objects H ! c))"
    by (simp_all add: valid_conversation_def)
  from assms(1) have po: "prefix (conversation_objects H) (conversation_objects H')"
    by (simp add: heap_extends_def)
  show same: "conversation_objects H' ! c = conversation_objects H ! c"
    using po c by (rule prefix_nth)
  have lc: "c < length (conversation_objects H')"
    using c prefix_length_le [OF po] by simp
  show "valid_conversation H' c"
    using lc valid_messages_extends(1) [OF assms(1) v] by (simp add: valid_conversation_def same)
  show "read_conversation H' c = read_conversation H c"
    using valid_messages_extends(2) [OF assms(1) v] by (simp add: read_conversation_def same)
qed

lemma valid_conversations_extends:
  assumes "heap_extends H H'" and "valid_conversations H a"
  shows "valid_conversations H' a" and "read_conversations H' a = read_conversations H a"
proof -
  from assms have a: "a < length (conversation_arrays H)"
    and cs: "\<forall>c \<in> set (conversation_arrays H ! a). valid_conversation H c"
    by (simp_all add: valid_conversations_def)
  from assms(1) have pa: "prefix (conversation_arrays H) (conversation_arrays H')"
    by (simp add: heap_extends_def)
  have same: "conversation_arrays H' ! a = conversation_arrays H ! a"
    using pa a by (rule prefix_nth)
  have la: "a < length (conversation_arrays H')"
    using a prefix_length_le [OF pa] by simp
  show "valid_conversations H' a"
    using la cs valid_conversation_extends(1) [OF assms(1)]
    by (auto simp: valid_conversations_def same)
  show "read_conversations H' a = read_conversations H a"
    using cs valid_conversation_extends(2) [OF assms(1)]
    by (simp add: read_conversations_def same)
qed

subsection \<open>Mapping over a conversation array\<close>

lemma carries_outD:
  assumes "carries_out H0 f g" and "heap_extends H0 H" and "valid_conversation H c"
    and "f c H = (c', H1)"
  shows "heap_extends H H1" and "valid_conversation H1 c'"
    and "read_conversation H1 c' = g (read_conversation H c)"
proof -
  from assms(1-3)
  have "heap_extends H (snd (f c H)) \<and> valid_conversation (snd (f c H)) (fst (f c H)) \<and>
        read_conversation (snd (f c H)) (fst (f c H)) = g (read_conversation H c)"
    unfolding carries_out_def by blast
  then show "heap_extends H H1" and "valid_conversation H1 c'"
    and "read_conversation H1 c' = g (read_conversation H c)"
    by (simp_all add: assms(4))
qed

lemma map_heap_carries_out:
  assumes "carries_out H0 f g"
  shows "heap_extends H0 H \<Longrightarrow> \<forall>c \<in> set cs. valid_conversation H c \<Longrightarrow>
         heap_extends H (snd (map_heap f cs H)) \<and>
         (\<forall>c \<in> set (fst (map_heap f cs H)). valid_conversation (snd (map_heap f cs H)) c) \<and>
         map (read_conversation (snd (map_heap f cs H))) (fst (map_heap f cs H))
           = map g (map (read_conversation H) cs)"
proof (induction cs arbitrary: H)
  case Nil
  show ?case by simp
next
  case (Cons c cs)
  obtain c' H1 where f: "f c H = (c', H1)"
    by (cases "f c H")
  obtain cs' H2 where r: "map_heap f cs H1 = (cs', H2)"
    by (cases "map_heap f cs H1")
  from Cons.prems have vc: "valid_conversation H c"
    and vcs: "\<forall>x \<in> set cs. valid_conversation H x"
    by simp_all
  note d = carries_outD [OF assms Cons.prems(1) vc f]
  have e1: "heap_extends H H1" by (rule d(1))
  have v1: "valid_conversation H1 c'" by (rule d(2))
  have r1: "read_conversation H1 c' = g (read_conversation H c)" by (rule d(3))
  have e01: "heap_extends H0 H1"
    using Cons.prems(1) e1 by (rule heap_extends_trans)
  have vcs1: "\<forall>x \<in> set cs. valid_conversation H1 x"
    using vcs valid_conversation_extends(1) [OF e1] by blast
  from Cons.IH [OF e01 vcs1] r have e2: "heap_extends H1 H2"
    and v2: "\<forall>x \<in> set cs'. valid_conversation H2 x"
    and r2: "map (read_conversation H2) cs' = map g (map (read_conversation H1) cs)"
    by simp_all
  have same: "map (read_conversation H1) cs = map (read_conversation H) cs"
    using vcs valid_conversation_extends(2) [OF e1] by simp
  have "heap_extends H H2"
    using e1 e2 by (rule heap_extends_trans)
  moreover have "valid_conversation H2 c'"
    using e2 v1 by (rule valid_conversation_extends(1))
  moreover have "read_conversation H2 c' = g (read_conversation H c)"
    using valid_conversation_extends(2) [OF e2 v1] r1 by simp
  ultimately show ?case
    using v2 r2 same by (simp add: f r)
qed

lemma map_conversations_carries_out:
  assumes "carries_out H0 f g" and "heap_extends H0 H" and "valid_conversations H a"
  shows "heap_extends H (snd (map_conversations f a H))"
    and "valid_conversations (snd (map_conversations f a H)) (fst (map_conversations f a H))"
    and "read_conversations (snd (map_conversations f a H)) (fst (map_conversations f a H))
           = map g (read_conversations H a)"
proof -
  let ?cs = "conversation_arrays H ! a"
  obtain cs' H1 where r: "map_heap f ?cs H = (cs', H1)"
    by (cases "map_heap f ?cs H")
  from assms(3) have "\<forall>c \<in> set ?cs. valid_conversation H c"
    by (simp add: valid_conversations_def)
  from map_heap_carries_out [OF assms(1) assms(2) this] r
  have e: "heap_extends H H1" and v: "\<forall>x \<in> set cs'. valid_conversation H1 x"
    and rd: "map (read_conversation H1) cs' = map g (map (read_conversation H) ?cs)"
    by simp_all
  let ?H2 = "snd (new_conversation_array cs' H1)"
  have e2: "heap_extends H1 ?H2"
    by simp
  have m: "map_conversations f a H = (length (conversation_arrays H1), ?H2)"
    by (simp add: map_conversations_def r new_conversation_array_def)
  have at: "conversation_arrays ?H2 ! length (conversation_arrays H1) = cs'"
    by (simp add: new_conversation_array_def)
  show "heap_extends H (snd (map_conversations f a H))"
    using e e2 by (simp add: m heap_extends_trans)
  show "valid_conversations (snd (map_conversations f a H)) (fst (map_conversations f a H))"
    using v valid_conversation_extends(1) [OF e2]
    by (simp add: m valid_conversations_def at) (simp add: new_conversation_array_def)
  show "read_conversations (snd (map_conversations f a H)) (fst (map_conversations f a H))
          = map g (read_conversations H a)"
    using v valid_conversation_extends(2) [OF e2] rd
    by (simp add: m read_conversations_def at cong: map_cong)
qed

subsection \<open>Allocation\<close>

lemma new_message_array_reads:
  assumes "\<forall>m \<in> set ms. m < length (message_objects H)"
  shows "valid_messages (snd (new_message_array ms H)) (fst (new_message_array ms H))"
    and "read_messages (snd (new_message_array ms H)) (fst (new_message_array ms H))
           = map (\<lambda>m. message_objects H ! m) ms"
    and "message_arrays (snd (new_message_array ms H)) ! fst (new_message_array ms H) = ms"
  using assms by (simp_all add: new_message_array_def valid_messages_def read_messages_def)

lemma new_conversation_reads:
  assumes "valid_messages H (hc_messages conv)"
  shows "valid_conversation (snd (new_conversation conv H)) (fst (new_conversation conv H))"
    and "read_conversation (snd (new_conversation conv H)) (fst (new_conversation conv H))
           = with_messages conv (read_messages H (hc_messages conv))"
  using assms
  by (simp_all add: new_conversation_def valid_conversation_def read_conversation_def
        valid_messages_def read_messages_def Let_def)

lemma read_conversation_fields:
  "c_id (read_conversation H c) = hc_id (conversation_objects H ! c)"
  "title (read_conversation H c) = hc_title (conversation_objects H ! c)"
  "messages (read_conversation H c) = read_messages H (hc_messages (conversation_objects H ! c))"
  by (simp_all add: read_conversation_def with_messages_def Let_def)

lemma valid_conversationD:
  "valid_conversation H c \<Longrightarrow> valid_messages H (hc_messages (conversation_objects H ! c))"
  by (simp add: valid_conversation_def)

subsection \<open>The callbacks\<close>

lemma carries_outI:
  assumes "\<And>H c. heap_extends H0 H \<Longrightarrow> valid_conversation H c \<Longrightarrow>
             heap_extends H (snd (f c H)) \<and>
             valid_conversation (snd (f c H)) (fst (f c H)) \<and>
             read_conversation (snd (f c H)) (fst (f c H)) = g (read_conversation H c)"
  shows "carries_out H0 f g"
  using assms by (simp add: carries_out_def)

lemma carries_out_title:
  "carries_out H0
     (\<lambda>c H. let conv = conversation_objects H ! c
             in if hc_id conv = ident
                then new_conversation (conv\<lparr>hc_title := ttl, hc_updatedAt := now\<rparr>) H
                else (c, H))
     (\<lambda>conv. if c_id conv = ident then conv\<lparr>title := ttl, updatedAt := now\<rparr> else conv)"
proof (rule carries_outI, goal_cases)
  case (1 H c)
  let ?conv = "conversation_objects H ! c"
  have vm: "valid_messages H (hc_messages (?conv\<lparr>hc_title := ttl, hc_updatedAt := now\<rparr>))"
    using valid_conversationD [OF 1(2)] by simp
  have w: "with_messages (?conv\<lparr>hc_title := ttl, hc_updatedAt := now\<rparr>)
             (read_messages H (hc_messages ?conv))
           = (read_conversation H c)\<lparr>title := ttl, updatedAt := now\<rparr>"
    by (simp add: read_conversation_def with_messages_def Let_def)
  show ?case
    using 1(2) new_conversation_reads [OF vm] w
    by (simp add: Let_def read_conversation_fields)
qed

lemma carries_out_favorite:
  "carries_out H0
     (\<lambda>c H. let conv = conversation_objects H ! c
             in if hc_id conv = ident
                then new_conversation
                       (conv\<lparr>hc_isFavorite := \<not> hc_isFavorite conv, hc_updatedAt := now\<rparr>) H
                else (c, H))
     (\<lambda>conv. if c_id conv = ident
              then conv\<lparr>isFavorite := \<not> isFavorite conv, updatedAt := now\<rparr> else conv)"
proof (rule carries_outI, goal_cases)
  case (1 H c)
  let ?conv = "conversation_objects H ! c"
  let ?new = "?conv\<lparr>hc_isFavorite := \<not> hc_isFavorite ?conv, hc_updatedAt := now\<rparr>"
  have vm: "valid_messages H (hc_messages ?new)"
    using valid_conversationD [OF 1(2)] by simp
  have w: "with_messages ?new (read_messages H (hc_messages ?conv))
           = (read_conversation H c)\<lparr>isFavorite := \<not> isFavorite (read_conversation H c),
                                      updatedAt := now\<rparr>"
    by (simp add: read_conversation_def with_messages_def Let_def)
  show ?case
    using 1(2) new_conversation_reads [OF vm] w
    by (simp add: Let_def read_conversation_fields)
qed

lemma carries_out_snapshot:
  "carries_out H0
     (\<lambda>c H. let conv = conversation_objects H ! c;
                 (a, H1) = new_message_array (message_arrays H ! hc_messages conv) H
             in new_conversation (conv\<lparr>hc_messages := a\<rparr>) H1)
     (\<lambda>conv. conv\<lparr>messages := slice (messages conv)\<rparr>)"
proof (rule carries_outI, goal_cases)
  case (1 H c)
  let ?conv = "conversation_objects H ! c"
  let ?ms = "message_arrays H ! hc_messages ?conv"
  let ?a = "fst (new_message_array ?ms H)"
  let ?H1 = "snd (new_message_array ?ms H)"
  have ms: "\<forall>m \<in> set ?ms. m < length (message_objects H)"
    using valid_conversationD [OF 1(2)] by (simp add: valid_messages_def)
  note a = new_message_array_reads [OF ms]
  have vm: "valid_messages ?H1 (hc_messages (?conv\<lparr>hc_messages := ?a\<rparr>))"
    using a(1) by simp
  note n = new_conversation_reads [OF vm]
  have e: "heap_extends H (snd (new_conversation (?conv\<lparr>hc_messages := ?a\<rparr>) ?H1))"
    by (rule heap_extends_trans [of _ ?H1]) simp_all
  have r: "read_messages ?H1 ?a = read_messages H (hc_messages ?conv)"
    using a(2) by (simp add: read_messages_def)
  have w: "with_messages (?conv\<lparr>hc_messages := ?a\<rparr>) (read_messages H (hc_messages ?conv))
           = (read_conversation H c)\<lparr>messages := slice (messages (read_conversation H c))\<rparr>"
    by (simp add: read_conversation_def with_messages_def Let_def slice_def)
  show ?case
    using e n r w by (simp add: Let_def split_beta)
qed

lemma heap_extends_message:
  assumes "heap_extends H0 H" and "m < length (message_objects H0)"
  shows "m < length (message_objects H)" and "message_objects H ! m = message_objects H0 ! m"
proof -
  from assms(1) have p: "prefix (message_objects H0) (message_objects H)"
    by (simp add: heap_extends_def)
  show "m < length (message_objects H)"
    using assms(2) prefix_length_le [OF p] by simp
  show "message_objects H ! m = message_objects H0 ! m"
    using p assms(2) by (rule prefix_nth)
qed

lemma carries_out_addMessage:
  assumes "m < length (message_objects H0)" and "message_objects H0 ! m = message"
  shows "carries_out H0
     (\<lambda>c H. let conv = conversation_objects H ! c
             in if hc_id conv = conversationId
                then (let ms = message_arrays H ! hc_messages conv @ [m];
                          (updatedMessages, H1) = new_message_array ms H;
                          ttl = (if hc_title conv = ''New Conversation'' \<and> length ms = 1
                                 then generateTitle (map (\<lambda>r. message_objects H1 ! r) ms)
                                 else hc_title conv)
                      in new_conversation
                           (conv\<lparr>hc_messages := updatedMessages, hc_title := ttl,
                                 hc_updatedAt := now\<rparr>) H1)
                else (c, H))
     (\<lambda>conv. if c_id conv = conversationId
              then (let updatedMessages = messages conv @ [message];
                        ttl = (if title conv = ''New Conversation'' \<and> length updatedMessages = 1
                               then generateTitle updatedMessages else title conv)
                    in conv\<lparr>messages := updatedMessages, title := ttl, updatedAt := now\<rparr>)
              else conv)"
proof (rule carries_outI, goal_cases)
  case (1 H c)
  let ?conv = "conversation_objects H ! c"
  let ?old = "message_arrays H ! hc_messages ?conv"
  let ?ms = "?old @ [m]"
  let ?a = "fst (new_message_array ?ms H)"
  let ?H1 = "snd (new_message_array ?ms H)"
  let ?msgs = "read_messages H (hc_messages ?conv) @ [message]"
  define ttl where "ttl = (if hc_title ?conv = ''New Conversation'' \<and> length ?ms = 1
                           then generateTitle ?msgs else hc_title ?conv)"
  let ?new = "?conv\<lparr>hc_messages := ?a, hc_title := ttl, hc_updatedAt := now\<rparr>"
  note hm = heap_extends_message [OF 1(1) assms(1)]
  have old: "\<forall>r \<in> set ?old. r < length (message_objects H)"
    using valid_conversationD [OF 1(2)] by (simp add: valid_messages_def)
  have ms: "\<forall>r \<in> set ?ms. r < length (message_objects H)"
    using old hm(1) by simp
  note a = new_message_array_reads [OF ms]
  have objs: "message_objects ?H1 = message_objects H"
    by (simp add: new_message_array_def)
  have rd: "map (\<lambda>r. message_objects H ! r) ?ms = ?msgs"
    using hm(2) assms(2) by (simp add: read_messages_def)
  have vm: "valid_messages ?H1 (hc_messages ?new)"
    using a(1) by simp
  note n = new_conversation_reads [OF vm]
  have e: "heap_extends H (snd (new_conversation ?new ?H1))"
    by (rule heap_extends_trans [of _ ?H1]) simp_all
  have w: "with_messages ?new ?msgs
           = (read_conversation H c)\<lparr>messages := ?msgs, title := ttl, updatedAt := now\<rparr>"
    by (simp add: read_conversation_def with_messages_def Let_def)
  have r1: "read_messages ?H1 ?a = ?msgs"
    using a(2) rd by simp
  show ?case
  proof (cases "hc_id ?conv = conversationId")
    case True
    have h: "(let conv = ?conv
              in if hc_id conv = conversationId
                 then (let ms = message_arrays H ! hc_messages conv @ [m];
                           (updatedMessages, H1) = new_message_array ms H;
                           ttl = (if hc_title conv = ''New Conversation'' \<and> length ms = 1
                                  then generateTitle (map (\<lambda>r. message_objects H1 ! r) ms)
                                  else hc_title conv)
                       in new_conversation
                            (conv\<lparr>hc_messages := updatedMessages, hc_title := ttl,
                                  hc_updatedAt := now\<rparr>) H1)
                 else (c, H)) = new_conversation ?new ?H1"
      unfolding ttl_def Let_def split_beta objs rd using True by simp
    have len: "(length (messages (read_conversation H c) @ [message]) = 1) = (length ?ms = 1)"
      by (simp add: read_conversation_fields read_messages_def)
    have u: "(if c_id (read_conversation H c) = conversationId
              then (let updatedMessages = messages (read_conversation H c) @ [message];
                        ttl = (if title (read_conversation H c) = ''New Conversation'' \<and>
                                  length updatedMessages = 1
                               then generateTitle updatedMessages
                               else title (read_conversation H c))
                    in (read_conversation H c)\<lparr>messages := updatedMessages, title := ttl,
                                               updatedAt := now\<rparr>)
              else read_conversation H c)
             = (read_conversation H c)\<lparr>messages := ?msgs, title := ttl, updatedAt := now\<rparr>"
      using True unfolding ttl_def Let_def len
      by (simp add: read_conversation_fields)
    show ?thesis
      unfolding h u using e n(1) n(2) r1 w by simp
  next
    case False
    then show ?thesis
      using 1(2) by (simp add: Let_def read_conversation_fields)
  qed
qed

lemma read_updated_last:
  assumes "\<forall>r \<in> set ms. r < length objs" and "ms \<noteq> []"
  shows "map (\<lambda>r. (objs @ [p]) ! r) (ms[length ms - 1 := length objs])
         = (map (\<lambda>r. objs ! r) ms)[length ms - 1 := p]"
proof (rule nth_equalityI)
  show "length (map (\<lambda>r. (objs @ [p]) ! r) (ms[length ms - 1 := length objs]))
          = length ((map (\<lambda>r. objs ! r) ms)[length ms - 1 := p])"
    by simp
next
  fix i
  assume "i < length (map (\<lambda>r. (objs @ [p]) ! r) (ms[length ms - 1 := length objs]))"
  then have i: "i < length ms" by simp
  then have "ms ! i < length objs"
    using assms(1) by simp
  then show "map (\<lambda>r. (objs @ [p]) ! r) (ms[length ms - 1 := length objs]) ! i
               = (map (\<lambda>r. objs ! r) ms)[length ms - 1 := p] ! i"
    using i by (cases "i = length ms - 1") (simp_all add: nth_append)
qed

lemma carries_out_update_last:
  "carries_out H0 (h_update_last patch conversationId opts now)
     (update_last patch conversationId opts now)"
proof (rule carries_outI, goal_cases)
  case (1 H c)
  let ?conv = "conversation_objects H ! c"
  let ?ms = "message_arrays H ! hc_messages ?conv"
  let ?n = "length ?ms"
  let ?a = "length (message_arrays H)"
  let ?m = "length (message_objects H)"
  let ?last = "message_objects H ! (?ms ! (?n - 1))"
  let ?H3 = "H\<lparr>message_objects := message_objects H @ [patch ?last],
               message_arrays := message_arrays H @ [?ms[?n - 1 := ?m]]\<rparr>"
  let ?msgs = "read_messages H (hc_messages ?conv)"
  have ms: "\<forall>r \<in> set ?ms. r < ?m"
    using valid_conversationD [OF 1(2)] by (simp add: valid_messages_def)
  show ?case
  proof (cases "hc_id ?conv = conversationId \<and> 0 < ?n")
    case False
    then show ?thesis
      using 1(2)
      by (auto simp: h_update_last_def update_last_def Let_def read_conversation_fields
            read_messages_def)
  next
    case True
    then have ne: "?ms \<noteq> []" by auto
    have lastm: "?ms ! (?n - 1) < ?m"
      using ms ne by simp
    have steps: "\<And>conv'. (let (updatedMessages, H1) = new_message_array ?ms H;
                     n = length (message_arrays H1 ! updatedMessages);
                     lastMessage = message_objects H1 ! (message_arrays H1 ! updatedMessages ! (n - 1));
                     (m, H2) = new_message (patch lastMessage) H1;
                     H3 = set_message_at updatedMessages (n - 1) m H2
                 in new_conversation (conv' updatedMessages) H3)
               = new_conversation (conv' ?a) ?H3"
      by (simp add: Let_def split_beta new_message_array_def new_message_def set_message_at_def
            list_update_append)
    have e3: "heap_extends H ?H3"
      by (simp add: heap_extends_def)
    have v3: "valid_messages ?H3 ?a"
      using ms by (auto simp: valid_messages_def dest!: set_update_subset_insert [THEN subsetD])
    have r3: "read_messages ?H3 ?a = ?msgs[length ?msgs - 1 := patch (?msgs ! (length ?msgs - 1))]"
      using read_updated_last [OF ms ne, of "patch ?last"] ne
      by (simp add: read_messages_def)
    show ?thesis
    proof (cases "opts_streaming opts")
      case s: True
      let ?new = "?conv\<lparr>hc_messages := ?a\<rparr>"
      have vm: "valid_messages ?H3 (hc_messages ?new)"
        using v3 by simp
      note n = new_conversation_reads [OF vm]
      have e: "heap_extends H (snd (new_conversation ?new ?H3))"
        by (rule heap_extends_trans [OF e3]) simp
      have w: "with_messages ?new (read_messages ?H3 ?a)
               = (read_conversation H c)\<lparr>messages := read_messages ?H3 ?a\<rparr>"
        by (simp add: read_conversation_def with_messages_def Let_def)
      have h: "h_update_last patch conversationId opts now c H = new_conversation ?new ?H3"
        using True s steps [of "\<lambda>u. ?conv\<lparr>hc_messages := u\<rparr>"]
        by (simp add: h_update_last_def Let_def)
      have u: "update_last patch conversationId opts now (read_conversation H c)
               = (read_conversation H c)\<lparr>messages := read_messages ?H3 ?a\<rparr>"
        using True s r3
        by (simp add: update_last_def Let_def read_conversation_fields read_messages_def)
      show ?thesis
        using e n w by (simp add: h u)
    next
      case s: False
      let ?new = "?conv\<lparr>hc_messages := ?a, hc_updatedAt := now\<rparr>"
      have vm: "valid_messages ?H3 (hc_messages ?new)"
        using v3 by simp
      note n = new_conversation_reads [OF vm]
      have e: "heap_extends H (snd (new_conversation ?new ?H3))"
        by (rule heap_extends_trans [OF e3]) simp
      have w: "with_messages ?new (read_messages ?H3 ?a)
               = (read_conversation H c)\<lparr>messages := read_messages ?H3 ?a, updatedAt := now\<rparr>"
        by (simp add: read_conversation_def with_messages_def Let_def)
      have h: "h_update_last patch conversationId opts now c H = new_conversation ?new ?H3"
        using True s steps [of "\<lambda>u. ?conv\<lparr>hc_messages := u, hc_updatedAt := now\<rparr>"]
        by (simp add: h_update_last_def Let_def)
      have u: "update_last patch conversationId opts now (read_conversation H c)
               = (read_conversation H c)\<lparr>messages := read_messages ?H3 ?a, updatedAt := now\<rparr>"
        using True s r3
        by (simp add: update_last_def Let_def read_conversation_fields read_messages_def)
      show ?thesis
        using e n w by (simp add: h u)
    qed
  qed
qed

subsection \<open>The actions on the heap carry out the actions on values\<close>

lemma valid_stateD:
  assumes "valid_state (H, hs)"
  shows "valid_conversations H (h_conversations hs)"
    and "\<And>s. h_conversationsSnapshot hs = Some s \<Longrightarrow> valid_conversations H s"
  using assms by (simp_all add: valid_state_def)

lemma snapshot_extends:
  assumes "heap_extends H H'" and "valid_state (H, hs)"
  shows "map_option (read_conversations H') (h_conversationsSnapshot hs)
           = map_option (read_conversations H) (h_conversationsSnapshot hs)"
    and "case h_conversationsSnapshot hs of None \<Rightarrow> True | Some s \<Rightarrow> valid_conversations H' s"
  using valid_conversations_extends [OF assms(1)] valid_stateD(2) [OF assms(2)]
  by (cases "h_conversationsSnapshot hs"; simp)+

lemma map_state_carries_out:
  assumes "carries_out H0 f g" and "heap_extends H H0" and "valid_state (H, hs)"
  shows "valid_state (snd (map_conversations f (h_conversations hs) H0),
                      hs\<lparr>h_conversations := fst (map_conversations f (h_conversations hs) H0)\<rparr>)"
    and "read_state (snd (map_conversations f (h_conversations hs) H0),
                     hs\<lparr>h_conversations := fst (map_conversations f (h_conversations hs) H0)\<rparr>)
           = (read_state (H, hs))\<lparr>conversations := map g (conversations (read_state (H, hs)))\<rparr>"
proof -
  let ?r = "map_conversations f (h_conversations hs) H0"
  have v0: "valid_conversations H0 (h_conversations hs)"
    using assms(2) valid_stateD(1) [OF assms(3)] by (rule valid_conversations_extends(1))
  have r0: "read_conversations H0 (h_conversations hs) = read_conversations H (h_conversations hs)"
    using assms(2) valid_stateD(1) [OF assms(3)] by (rule valid_conversations_extends(2))
  note m = map_conversations_carries_out [OF assms(1) heap_extends_refl v0]
  have e: "heap_extends H (snd ?r)"
    using assms(2) m(1) by (rule heap_extends_trans)
  note s = snapshot_extends [OF e assms(3)]
  show "valid_state (snd ?r, hs\<lparr>h_conversations := fst ?r\<rparr>)"
    using m(2) s(2) by (simp add: valid_state_def)
  show "read_state (snd ?r, hs\<lparr>h_conversations := fst ?r\<rparr>)
          = (read_state (H, hs))\<lparr>conversations := map g (conversations (read_state (H, hs)))\<rparr>"
    using m(3) s(1) r0 by (simp add: read_state_def)
qed

lemma h_updateConversationTitle_carries_out:
  assumes "valid_state X"
  shows "valid_state (h_updateConversationTitle ident ttl now X)"
    and "read_state (h_updateConversationTitle ident ttl now X)
           = updateConversationTitle ident ttl now (read_state X)"
proof -
  obtain H hs where X: "X = (H, hs)" by (cases X)
  note m = map_state_carries_out
             [OF carries_out_title [where ?H0.0 = H and ident = ident and ttl = ttl and now = now] heap_extends_refl assms [unfolded X]]
  show "valid_state (h_updateConversationTitle ident ttl now X)"
    using m(1) by (simp add: X h_updateConversationTitle_def split_beta)
  show "read_state (h_updateConversationTitle ident ttl now X)
          = updateConversationTitle ident ttl now (read_state X)"
    using m(2) by (simp add: X h_updateConversationTitle_def updateConversationTitle_def split_beta)
qed

lemma h_toggleFavorite_carries_out:
  assumes "valid_state X"
  shows "valid_state (h_toggleFavorite ident now X)"
    and "read_state (h_toggleFavorite ident now X) = toggleFavorite ident now (read_state X)"
proof -
  obtain H hs where X: "X = (H, hs)" by (cases X)
  note m = map_state_carries_out
             [OF carries_out_favorite [where ?H0.0 = H and ident = ident and now = now] heap_extends_refl assms [unfolded X]]
  show "valid_state (h_toggleFavorite ident now X)"
    using m(1) by (simp add: X h_toggleFavorite_def split_beta)
  show "read_state (h_toggleFavorite ident now X) = toggleFavorite ident now (read_state X)"
    using m(2) by (simp add: X h_toggleFavorite_def toggleFavorite_def split_beta)
qed

lemma h_addMessage_carries_out:
  assumes "valid_state X"
  shows "valid_state (h_addMessage conversationId message now X)"
    and "read_state (h_addMessage conversationId message now X)
           = addMessage conversationId message now (read_state X)"
proof -
  obtain H hs where X: "X = (H, hs)" by (cases X)
  let ?m = "length (message_objects H)"
  let ?H0 = "H\<lparr>message_objects := message_objects H @ [message]\<rparr>"
  let ?f = "\<lambda>c H. let conv = conversation_objects H ! c
                  in if hc_id conv = conversationId
                     then (let ms = message_arrays H ! hc_messages conv @ [?m];
                               (updatedMessages, H1) = new_message_array ms H;
                               ttl = (if hc_title conv = ''New Conversation'' \<and> length ms = 1
                                      then generateTitle (map (\<lambda>r. message_objects H1 ! r) ms)
                                      else hc_title conv)
                           in new_conversation
                                (conv\<lparr>hc_messages := updatedMessages, hc_title := ttl,
                                      hc_updatedAt := now\<rparr>) H1)
                     else (c, H)"
  let ?r = "map_conversations ?f (h_conversations hs) ?H0"
  have h: "h_addMessage conversationId message now (H, hs)
             = (snd ?r, hs\<lparr>h_conversations := fst ?r\<rparr>)"
    by (simp add: h_addMessage_def new_message_def split_beta cong: if_cong)
  have a: "?m < length (message_objects ?H0)" and b: "message_objects ?H0 ! ?m = message"
    by simp_all
  have e: "heap_extends H ?H0"
    by (simp add: heap_extends_def)
  note m = map_state_carries_out
             [OF carries_out_addMessage
                   [OF a b, where conversationId = conversationId and now = now]
                 e assms [unfolded X]]
  show "valid_state (h_addMessage conversationId message now X)"
    unfolding X h by (rule m(1))
  show "read_state (h_addMessage conversationId message now X)
          = addMessage conversationId message now (read_state X)"
    unfolding X h addMessage_def Let_def by (rule m(2) [unfolded Let_def])
qed

lemma h_update_last_state:
  assumes "valid_state (H, hs)"
  shows "valid_state
           (case map_conversations (h_update_last patch conversationId opts now)
                   (h_conversations hs) H of
              (updated, H') \<Rightarrow> (H', hs\<lparr>h_conversations := updated\<rparr>))"
    and "read_state
           (case map_conversations (h_update_last patch conversationId opts now)
                   (h_conversations hs) H of
              (updated, H') \<Rightarrow> (H', hs\<lparr>h_conversations := updated\<rparr>))
         = (read_state (H, hs))
             \<lparr>conversations := map (update_last patch conversationId opts now)
                                   (conversations (read_state (H, hs)))\<rparr>"
  using map_state_carries_out
          [OF carries_out_update_last [where ?H0.0 = H and patch = patch and conversationId = conversationId and opts = opts and now = now] heap_extends_refl assms]
  by (simp_all add: split_beta)

lemma h_updateLastMessage_carries_out:
  assumes "valid_state X"
  shows "valid_state (h_updateLastMessage conversationId cont opts now X)"
    and "read_state (h_updateLastMessage conversationId cont opts now X)
           = updateLastMessage conversationId cont opts now (read_state X)"
proof -
  obtain H hs where X: "X = (H, hs)" by (cases X)
  note m = h_update_last_state [OF assms [unfolded X]]
  show "valid_state (h_updateLastMessage conversationId cont opts now X)"
    unfolding X h_updateLastMessage_def prod.case by (rule m(1))
  show "read_state (h_updateLastMessage conversationId cont opts now X)
          = updateLastMessage conversationId cont opts now (read_state X)"
    unfolding X h_updateLastMessage_def updateLastMessage_def prod.case by (rule m(2))
qed

lemma h_updateLastMessageReasoning_carries_out:
  assumes "valid_state X"
  shows "valid_state (h_updateLastMessageReasoning conversationId reas opts now X)"
    and "read_state (h_updateLastMessageReasoning conversationId reas opts now X)
           = updateLastMessageReasoning conversationId reas opts now (read_state X)"
proof -
  obtain H hs where X: "X = (H, hs)" by (cases X)
  note m = h_update_last_state [OF assms [unfolded X]]
  show "valid_state (h_updateLastMessageReasoning conversationId reas opts now X)"
    unfolding X h_updateLastMessageReasoning_def prod.case by (rule m(1))
  show "read_state (h_updateLastMessageReasoning conversationId reas opts now X)
          = updateLastMessageReasoning conversationId reas opts now (read_state X)"
    unfolding X h_updateLastMessageReasoning_def updateLastMessageReasoning_def prod.case
    by (rule m(2))
qed

lemma h_updateLastMessageToolOutput_carries_out:
  assumes "valid_state X"
  shows "valid_state (h_updateLastMessageToolOutput conversationId output opts now X)"
    and "read_state (h_updateLastMessageToolOutput conversationId output opts now X)
           = updateLastMessageToolOutput conversationId output opts now (read_state X)"
proof -
  obtain H hs where X: "X = (H, hs)" by (cases X)
  note m = h_update_last_state [OF assms [unfolded X]]
  show "valid_state (h_updateLastMessageToolOutput conversationId output opts now X)"
    unfolding X h_updateLastMessageToolOutput_def prod.case by (rule m(1))
  show "read_state (h_updateLastMessageToolOutput conversationId output opts now X)
          = updateLastMessageToolOutput conversationId output opts now (read_state X)"
    unfolding X h_updateLastMessageToolOutput_def updateLastMessageToolOutput_def prod.case
    by (rule m(2))
qed

lemma h_deleteConversation_carries_out:
  assumes "valid_state X"
  shows "valid_state (h_deleteConversation ident X)"
    and "read_state (h_deleteConversation ident X) = deleteConversation ident (read_state X)"
proof -
  obtain H hs where X: "X = (H, hs)" by (cases X)
  let ?cs = "conversation_arrays H ! h_conversations hs"
  let ?kept = "filter (\<lambda>c. hc_id (conversation_objects H ! c) \<noteq> ident) ?cs"
  let ?a = "length (conversation_arrays H)"
  let ?H' = "snd (new_conversation_array ?kept H)"
  let ?cur = "if h_currentConversationId hs = Some ident
              then (if length ?kept > 0
                    then Some (hc_id (conversation_objects ?H' ! hd ?kept)) else None)
              else h_currentConversationId hs"
  have h: "h_deleteConversation ident (H, hs)
             = (?H', hs\<lparr>h_conversations := ?a, h_currentConversationId := ?cur\<rparr>)"
    by (simp add: h_deleteConversation_def Let_def new_conversation_array_def)
  have e: "heap_extends H ?H'" by simp
  have vcs: "\<forall>c \<in> set ?cs. valid_conversation H c"
    using valid_stateD(1) [OF assms [unfolded X]] by (simp add: valid_conversations_def)
  have at: "conversation_arrays ?H' ! ?a = ?kept" and len: "?a < length (conversation_arrays ?H')"
    by (simp_all add: new_conversation_array_def)
  have objs: "conversation_objects ?H' = conversation_objects H"
    by (simp add: new_conversation_array_def)
  have v: "valid_conversations ?H' ?a"
    using vcs valid_conversation_extends(1) [OF e] len by (simp add: valid_conversations_def at)
  have "read_conversations ?H' ?a = map (read_conversation H) ?kept"
    using vcs valid_conversation_extends(2) [OF e] by (simp add: read_conversations_def at)
  also have "\<dots> = filter (\<lambda>conv. c_id conv \<noteq> ident) (map (read_conversation H) ?cs)"
    by (simp add: filter_map o_def read_conversation_fields)
  finally have r: "read_conversations ?H' ?a
                     = filter (\<lambda>conv. c_id conv \<noteq> ident) (read_conversations H (h_conversations hs))"
    by (simp add: read_conversations_def)
  have first: "?kept \<noteq> [] \<Longrightarrow>
               hc_id (conversation_objects ?H' ! hd ?kept)
                 = c_id (hd (filter (\<lambda>conv. c_id conv \<noteq> ident)
                               (read_conversations H (h_conversations hs))))"
    by (simp add: objs read_conversations_def filter_map o_def read_conversation_fields hd_map)
  have empty: "(?kept = []) = (filter (\<lambda>conv. c_id conv \<noteq> ident)
                                 (read_conversations H (h_conversations hs)) = [])"
    by (simp add: read_conversations_def filter_map o_def read_conversation_fields)
  note s = snapshot_extends [OF e assms [unfolded X]]
  show "valid_state (h_deleteConversation ident X)"
    unfolding X h using v s(2) by (simp add: valid_state_def)
  have cases: "?kept = [] \<or> ?kept \<noteq> []" by blast
  show "read_state (h_deleteConversation ident X) = deleteConversation ident (read_state X)"
    unfolding X h using cases
  proof
    assume k: "?kept = []"
    then show "read_state (?H', hs\<lparr>h_conversations := ?a, h_currentConversationId := ?cur\<rparr>)
                 = deleteConversation ident (read_state (H, hs))"
      using r s(1) empty by (simp add: read_state_def deleteConversation_def Let_def)
  next
    assume k: "?kept \<noteq> []"
    then show "read_state (?H', hs\<lparr>h_conversations := ?a, h_currentConversationId := ?cur\<rparr>)
                 = deleteConversation ident (read_state (H, hs))"
      using r s(1) empty first [OF k]
      by (simp add: read_state_def deleteConversation_def Let_def)
  qed
qed

lemma h_snapshotConversations_carries_out:
  assumes "valid_state X"
  shows "valid_state (h_snapshotConversations X)"
    and "read_state (h_snapshotConversations X) = snapshotConversations (read_state X)"
proof -
  obtain H hs where X: "X = (H, hs)" by (cases X)
  let ?f = "\<lambda>c H. let conv = conversation_objects H ! c;
                      (a, H1) = new_message_array (message_arrays H ! hc_messages conv) H
                  in new_conversation (conv\<lparr>hc_messages := a\<rparr>) H1"
  let ?r = "map_conversations ?f (h_conversations hs) H"
  have h: "h_snapshotConversations (H, hs)
             = (snd ?r, hs\<lparr>h_conversationsSnapshot := Some (fst ?r)\<rparr>)"
    by (simp add: h_snapshotConversations_def split_beta)
  note v0 = valid_stateD(1) [OF assms [unfolded X]]
  note m = map_conversations_carries_out [OF carries_out_snapshot heap_extends_refl v0]
  note l = valid_conversations_extends [OF m(1) v0]
  show "valid_state (h_snapshotConversations X)"
    unfolding X h using m(2) l(1) by (simp add: valid_state_def)
  show "read_state (h_snapshotConversations X) = snapshotConversations (read_state X)"
    unfolding X h using m(3) l(2) by (simp add: read_state_def snapshotConversations_def Let_def)
qed

lemma h_mutate_carries_out:
  assumes "valid_state X"
  shows "valid_state (h_mutate m X)" and "read_state (h_mutate m X) = mutate m (read_state X)"
  using assms
  by (cases m;
      simp add: h_addMessage_carries_out h_updateLastMessage_carries_out
        h_updateLastMessageReasoning_carries_out h_updateLastMessageToolOutput_carries_out
        h_updateConversationTitle_carries_out h_toggleFavorite_carries_out
        h_deleteConversation_carries_out)+

lemma mutate_keeps_snapshot:
  "conversationsSnapshot (mutate m st) = conversationsSnapshot st"
  by (cases m)
     (simp_all add: addMessage_def updateLastMessage_def updateLastMessageReasoning_def
        updateLastMessageToolOutput_def updateConversationTitle_def toggleFavorite_def
        deleteConversation_def Let_def)

lemma h_mutations_keep_snapshot:
  "valid_state X \<Longrightarrow>
   valid_state (h_mutations ms X) \<and>
   conversationsSnapshot (read_state (h_mutations ms X)) = conversationsSnapshot (read_state X)"
proof (induction ms arbitrary: X)
  case Nil
  then show ?case by simp
next
  case (Cons m ms)
  note s = h_mutate_carries_out [OF Cons.prems, of m]
  from Cons.IH [OF s(1)] show ?case
    by (simp add: s(2) mutate_keeps_snapshot)
qed

lemma snapshot_callback:
  "(let conv = conversation_objects H ! c;
        (a, H1) = new_message_array (message_arrays H ! hc_messages conv) H
    in new_conversation (conv\<lparr>hc_messages := a\<rparr>) H1)
   = (length (conversation_objects H),
      H\<lparr>message_arrays := message_arrays H @ [message_refs H c],
        conversation_objects :=
          conversation_objects H @
            [(conversation_objects H ! c)\<lparr>hc_messages := length (message_arrays H)\<rparr>]\<rparr>)"
  by (simp add: Let_def new_message_array_def new_conversation_def message_refs_def)

text \<open>
  What mapping the callback of \<open>snapshotConversations\<close> over an array allocates: for each
  conversation a new conversation object with a new message array, which holds the
  references the old one holds. No conversation array and no message object is allocated.
\<close>

lemma map_heap_snapshot_fresh:
  assumes "\<forall>c \<in> set cs. valid_conversation H c"
    and "map_heap
           (\<lambda>c H. let conv = conversation_objects H ! c;
                       (a, H1) = new_message_array (message_arrays H ! hc_messages conv) H
                   in new_conversation (conv\<lparr>hc_messages := a\<rparr>) H1) cs H = (cs', H')"
  shows "heap_extends H H' \<and>
         conversation_arrays H' = conversation_arrays H \<and>
         message_objects H' = message_objects H \<and>
         (\<forall>c' \<in> set cs'.
            length (conversation_objects H) \<le> c' \<and> c' < length (conversation_objects H') \<and>
            length (message_arrays H) \<le> hc_messages (conversation_objects H' ! c') \<and>
            hc_messages (conversation_objects H' ! c') < length (message_arrays H')) \<and>
         map (message_refs H') cs' = map (message_refs H) cs"
  using assms
proof (induction cs arbitrary: H cs' H')
  case Nil
  then show ?case by simp
next
  case (Cons c cs)
  let ?f = "\<lambda>c H. let conv = conversation_objects H ! c;
                      (a, H1) = new_message_array (message_arrays H ! hc_messages conv) H
                  in new_conversation (conv\<lparr>hc_messages := a\<rparr>) H1"
  let ?n = "length (conversation_objects H)"
  let ?a = "length (message_arrays H)"
  let ?H1 = "H\<lparr>message_arrays := message_arrays H @ [message_refs H c],
               conversation_objects :=
                 conversation_objects H @ [(conversation_objects H ! c)\<lparr>hc_messages := ?a\<rparr>]\<rparr>"
  have f: "?f c H = (?n, ?H1)"
    by (rule snapshot_callback)
  obtain cs2 H2 where r: "map_heap ?f cs ?H1 = (cs2, H2)"
    by (cases "map_heap ?f cs ?H1")
  have m: "map_heap ?f (c # cs) H = (?n # cs2, H2)"
    by (simp only: map_heap.simps f r prod.case)
  have res: "cs' = ?n # cs2" "H' = H2"
    using Cons.prems(2) unfolding m by simp_all
  have e1: "heap_extends H ?H1"
    by (simp add: heap_extends_def)
  from Cons.prems(1) have vcs: "\<forall>x \<in> set cs. valid_conversation H x"
    by simp
  have vcs1: "\<forall>x \<in> set cs. valid_conversation ?H1 x"
    using vcs valid_conversation_extends(1) [OF e1] by blast
  from Cons.IH [OF vcs1 r]
  have e2: "heap_extends ?H1 H2"
    and ca: "conversation_arrays H2 = conversation_arrays ?H1"
    and mo: "message_objects H2 = message_objects ?H1"
    and fr: "\<forall>c' \<in> set cs2.
               length (conversation_objects ?H1) \<le> c' \<and> c' < length (conversation_objects H2) \<and>
               length (message_arrays ?H1) \<le> hc_messages (conversation_objects H2 ! c') \<and>
               hc_messages (conversation_objects H2 ! c') < length (message_arrays H2)"
    and mr: "map (message_refs H2) cs2 = map (message_refs ?H1) cs"
    by simp_all
  from e2 have pc: "prefix (conversation_objects ?H1) (conversation_objects H2)"
    and pm: "prefix (message_arrays ?H1) (message_arrays H2)"
    by (simp_all add: heap_extends_def)
  have obj: "conversation_objects H2 ! ?n = (conversation_objects H ! c)\<lparr>hc_messages := ?a\<rparr>"
    using prefix_nth [OF pc, of ?n] by simp
  have arr: "message_arrays H2 ! ?a = message_refs H c"
    using prefix_nth [OF pm, of ?a] by simp
  have ln: "?n < length (conversation_objects H2)"
    using prefix_length_le [OF pc] by simp
  have la: "?a < length (message_arrays H2)"
    using prefix_length_le [OF pm] by simp
  have head: "message_refs H2 ?n = message_refs H c"
    by (simp add: message_refs_def obj arr)
  have same: "\<And>x. x \<in> set cs \<Longrightarrow> message_refs ?H1 x = message_refs H x"
  proof -
    fix x
    assume "x \<in> set cs"
    with vcs have v: "valid_conversation H x" by blast
    then have x: "x < length (conversation_objects H)"
      and m: "hc_messages (conversation_objects H ! x) < length (message_arrays H)"
      by (simp_all add: valid_conversation_def valid_messages_def)
    show "message_refs ?H1 x = message_refs H x"
      using x m by (simp add: message_refs_def nth_append)
  qed
  have tail: "map (message_refs H2) cs2 = map (message_refs H) cs"
    using mr same by simp
  have fresh: "\<forall>c' \<in> set (?n # cs2).
                 length (conversation_objects H) \<le> c' \<and> c' < length (conversation_objects H2) \<and>
                 length (message_arrays H) \<le> hc_messages (conversation_objects H2 ! c') \<and>
                 hc_messages (conversation_objects H2 ! c') < length (message_arrays H2)"
    using fr ln la by (auto simp: obj)
  have "heap_extends H H2"
    using e1 e2 by (rule heap_extends_trans)
  moreover have "conversation_arrays H2 = conversation_arrays H"
    using ca by simp
  moreover have "message_objects H2 = message_objects H"
    using mo by simp
  ultimately show ?case
    using fresh head tail unfolding res by simp
qed

text \<open>
  Claim C6. On a heap without dangling references, \<open>snapshotConversations\<close> leaves the
  live list as it was and stores a snapshot that shows the same conversations with the
  same messages. The snapshot is a copy, and a shallow one: it is a conversation array
  at an address that was not allocated before, so not the live array; the conversation
  objects in it and their message arrays are at addresses that were not allocated before
  either; the message arrays hold, conversation by conversation, the references that
  those of the live list hold; and no message object is allocated. After any sequence of
  \<open>addMessage\<close>, \<open>updateLastMessage\<close>, \<open>updateLastMessageReasoning\<close>,
  \<open>updateLastMessageToolOutput\<close>, \<open>updateConversationTitle\<close>, \<open>toggleFavorite\<close> and
  \<open>deleteConversation\<close> that follows, the snapshot still shows what the live list showed
  when the snapshot was taken.
\<close>

theorem snapshot_unchanged_by_mutations:
  assumes "valid_state X"
  shows "conversationsSnapshot (read_state (h_snapshotConversations X))
           = Some (conversations (read_state X)) \<and>
         conversations (read_state (h_snapshotConversations X)) = conversations (read_state X) \<and>
         conversationsSnapshot (read_state (h_mutations ms (h_snapshotConversations X)))
           = Some (conversations (read_state X)) \<and>
         h_conversationsSnapshot (snd (h_snapshotConversations X))
           = Some (length (conversation_arrays (fst X))) \<and>
         h_conversations (snd (h_snapshotConversations X)) = h_conversations (snd X) \<and>
         h_conversations (snd X) < length (conversation_arrays (fst X)) \<and>
         (\<forall>c' \<in> set (conversation_arrays (fst (h_snapshotConversations X))
                        ! length (conversation_arrays (fst X))).
            length (conversation_objects (fst X)) \<le> c' \<and>
            length (message_arrays (fst X))
              \<le> hc_messages (conversation_objects (fst (h_snapshotConversations X)) ! c')) \<and>
         map (message_refs (fst (h_snapshotConversations X)))
             (conversation_arrays (fst (h_snapshotConversations X))
                ! length (conversation_arrays (fst X)))
           = map (message_refs (fst X)) (conversation_arrays (fst X) ! h_conversations (snd X)) \<and>
         message_objects (fst (h_snapshotConversations X)) = message_objects (fst X)"
proof -
  note s = h_snapshotConversations_carries_out [OF assms]
  have a: "conversationsSnapshot (read_state (h_snapshotConversations X))
             = Some (conversations (read_state X))"
    by (simp add: s(2) snapshotConversations_def Let_def slice_def)
  have b: "conversations (read_state (h_snapshotConversations X)) = conversations (read_state X)"
    by (simp add: s(2) snapshotConversations_def Let_def)
  have c: "conversationsSnapshot (read_state (h_mutations ms (h_snapshotConversations X)))
             = Some (conversations (read_state X))"
    using h_mutations_keep_snapshot [OF s(1), of ms] a by simp
  obtain H hs where X: "X = (H, hs)" by (cases X)
  let ?f = "\<lambda>c H. let conv = conversation_objects H ! c;
                      (a, H1) = new_message_array (message_arrays H ! hc_messages conv) H
                  in new_conversation (conv\<lparr>hc_messages := a\<rparr>) H1"
  let ?cs = "conversation_arrays H ! h_conversations hs"
  obtain cs' H' where r: "map_heap ?f ?cs H = (cs', H')"
    by (cases "map_heap ?f ?cs H")
  note v = valid_stateD(1) [OF assms [unfolded X]]
  from v have live: "h_conversations hs < length (conversation_arrays H)"
    and vcs: "\<forall>c \<in> set ?cs. valid_conversation H c"
    by (simp_all add: valid_conversations_def)
  from map_heap_snapshot_fresh [OF vcs r]
  have ca: "conversation_arrays H' = conversation_arrays H"
    and mo: "message_objects H' = message_objects H"
    and fr: "\<forall>c' \<in> set cs'.
               length (conversation_objects H) \<le> c' \<and>
               length (message_arrays H) \<le> hc_messages (conversation_objects H' ! c')"
    and mr: "map (message_refs H') cs' = map (message_refs H) ?cs"
    by simp_all
  let ?H2 = "H'\<lparr>conversation_arrays := conversation_arrays H' @ [cs']\<rparr>"
  have h: "h_snapshotConversations (H, hs)
             = (?H2, hs\<lparr>h_conversationsSnapshot := Some (length (conversation_arrays H))\<rparr>)"
    by (simp only: h_snapshotConversations_def map_conversations_def r
          new_conversation_array_def ca prod.case)
  have refs: "message_refs ?H2 = message_refs H'"
    by (simp add: message_refs_def fun_eq_iff)
  have at: "conversation_arrays ?H2 ! length (conversation_arrays H) = cs'"
    by (simp add: ca)
  have d: "h_conversationsSnapshot (snd (h_snapshotConversations X))
             = Some (length (conversation_arrays (fst X)))"
    by (simp add: X h)
  have e: "h_conversations (snd (h_snapshotConversations X)) = h_conversations (snd X)"
    by (simp add: X h)
  have f: "h_conversations (snd X) < length (conversation_arrays (fst X))"
    using live by (simp add: X)
  have g: "\<forall>c' \<in> set (conversation_arrays (fst (h_snapshotConversations X))
                         ! length (conversation_arrays (fst X))).
             length (conversation_objects (fst X)) \<le> c' \<and>
             length (message_arrays (fst X))
               \<le> hc_messages (conversation_objects (fst (h_snapshotConversations X)) ! c')"
    using fr unfolding X h fst_conv at by simp
  have i: "map (message_refs (fst (h_snapshotConversations X)))
               (conversation_arrays (fst (h_snapshotConversations X))
                  ! length (conversation_arrays (fst X)))
           = map (message_refs (fst X)) (conversation_arrays (fst X) ! h_conversations (snd X))"
    unfolding X h fst_conv snd_conv at refs by (rule mr)
  have j: "message_objects (fst (h_snapshotConversations X)) = message_objects (fst X)"
    by (simp add: X h mo)
  from a b c d e f g i j show ?thesis
    by blast
qed

theorem snapshot_unchanged_by_mutations_witness:
  "conversationsSnapshot (read_state (h_mutations
      [M_updateLastMessage ''s1'' ''Hello'' None 3, M_addMessage ''s1'' (sample_message ''m2'' User ''x'') 5,
       M_deleteConversation ''s1'']
      (h_snapshotConversations (sample_heap, sample_hstore))))
     = Some [sample_conversation ''s1'' [sample_message ''m1'' Assistant ''Hel'']] \<and>
   h_conversations (snd (h_snapshotConversations (sample_heap, sample_hstore))) = 0 \<and>
   h_conversationsSnapshot (snd (h_snapshotConversations (sample_heap, sample_hstore))) = Some 1"
proof -
  have v: "valid_state (sample_heap, sample_hstore)"
    by (simp add: valid_state_def valid_conversations_def valid_conversation_def
          valid_messages_def sample_heap_def sample_hstore_def)
  have r: "conversations (read_state (sample_heap, sample_hstore))
             = [sample_conversation ''s1'' [sample_message ''m1'' Assistant ''Hel'']]"
    by (simp add: read_state_def read_conversations_def read_conversation_def with_messages_def
          read_messages_def sample_heap_def sample_hstore_def sample_conversation_def Let_def)
  have l: "length (conversation_arrays (fst (sample_heap, sample_hstore))) = 1"
    and o: "h_conversations (snd (sample_heap, sample_hstore)) = 0"
    by (simp_all add: sample_heap_def sample_hstore_def)
  note t = snapshot_unchanged_by_mutations [OF v,
         of "[M_updateLastMessage ''s1'' ''Hello'' None 3,
              M_addMessage ''s1'' (sample_message ''m2'' User ''x'') 5,
              M_deleteConversation ''s1'']"]
  from t have 1: "conversationsSnapshot (read_state (h_mutations
      [M_updateLastMessage ''s1'' ''Hello'' None 3, M_addMessage ''s1'' (sample_message ''m2'' User ''x'') 5,
       M_deleteConversation ''s1'']
      (h_snapshotConversations (sample_heap, sample_hstore))))
     = Some (conversations (read_state (sample_heap, sample_hstore)))"
    by blast
  from t have 2: "h_conversations (snd (h_snapshotConversations (sample_heap, sample_hstore)))
                    = h_conversations (snd (sample_heap, sample_hstore))"
    by blast
  from t have 3: "h_conversationsSnapshot (snd (h_snapshotConversations (sample_heap, sample_hstore)))
                    = Some (length (conversation_arrays (fst (sample_heap, sample_hstore))))"
    by blast
  show ?thesis
    unfolding 1 2 3 r l o by simp
qed

end
